theory Spec2Isabelle
  imports Main
begin

section \<open>JavaScript values\<close>

text \<open>
  The library is dynamically typed JavaScript. Its inputs are modelled by one datatype of
  values: the primitives, arrays, plain objects (an association list of own properties in
  enumeration order), opaque functions (an identifier, interpreted by the environment)
  and references to host elements (an index into the node store).

  Conventions of the model:
  \<^item> a string is a \<open>char list\<close>; each \<open>char\<close> stands for one code unit below 256;
  \<^item> a number is an integer (\<open>Num\<close>); fractions, NaN and infinities are not modelled;
  \<^item> objects are plain data: the property list is the enumeration order (the reordering
    of integer-like keys is not modelled), and there are no getters or prototypes;
  \<^item> element references used as configuration items expose no properties.
\<close>
datatype jsval =
    Undefined
  | Null
  | Bool bool
  | Num int
  | Str string
  | Arr "jsval list"
  | Obj "(string \<times> jsval) list"
  | Fun nat
  | Elem nat

text \<open>\<open>v == null\<close>\<close>
definition nullish :: "jsval \<Rightarrow> bool" where
  "nullish v = (v = Undefined \<or> v = Null)"

text \<open>\<open>Boolean(v)\<close>: the truthiness used by \<open>if (v)\<close>, \<open>v && w\<close>, \<open>!v\<close>, \<open>v || w\<close>.\<close>
fun truthy :: "jsval \<Rightarrow> bool" where
  "truthy Undefined = False"
| "truthy Null = False"
| "truthy (Bool b) = b"
| "truthy (Num n) = (n \<noteq> 0)"
| "truthy (Str s) = (s \<noteq> [])"
| "truthy (Arr xs) = True"
| "truthy (Obj ps) = True"
| "truthy (Fun f) = True"
| "truthy (Elem n) = True"

text \<open>\<open>v ?? w\<close>\<close>
definition nullish_or :: "jsval \<Rightarrow> jsval \<Rightarrow> jsval" where
  "nullish_or v w = (if nullish v then w else v)"

text \<open>\<open>Array.isArray(v)\<close>\<close>
fun isArray :: "jsval \<Rightarrow> bool" where
  "isArray (Arr xs) = True"
| "isArray v = False"

text \<open>\<open>typeof v === 'object'\<close>\<close>
fun typeof_object :: "jsval \<Rightarrow> bool" where
  "typeof_object Null = True"
| "typeof_object (Arr xs) = True"
| "typeof_object (Obj ps) = True"
| "typeof_object (Elem n) = True"
| "typeof_object v = False"

text \<open>\<open>typeof v === 'function'\<close>\<close>
fun typeof_function :: "jsval \<Rightarrow> bool" where
  "typeof_function (Fun f) = True"
| "typeof_function v = False"

subsection \<open>Strings\<close>

text \<open>Decimal digits of a natural number, most significant first.\<close>
fun digits :: "nat \<Rightarrow> string" where
  "digits n = (if n < 10 then [char_of (48 + n)]
               else digits (n div 10) @ [char_of (48 + n mod 10)])"

declare digits.simps [simp del]

definition show_int :: "int \<Rightarrow> string" where
  "show_int i = (if i < 0 then CHR ''-'' # digits (nat (- i)) else digits (nat i))"

text \<open>\<open>xs.join(sep)\<close> on strings.\<close>
fun join :: "string \<Rightarrow> string list \<Rightarrow> string" where
  "join sep [] = []"
| "join sep [x] = x"
| "join sep (x # y # ys) = x @ sep @ join sep (y # ys)"

text \<open>
  The white space of \<open>trim\<close> and of \<open>\s\<close>, and the line terminators that \<open>.\<close> refuses,
  among the code units below 256.
\<close>
definition is_ws :: "char \<Rightarrow> bool" where
  "is_ws c = (let n = (of_char c :: nat) in (9 \<le> n \<and> n \<le> 13) \<or> n = 32 \<or> n = 160)"

definition is_lt :: "char \<Rightarrow> bool" where
  "is_lt c = (let n = (of_char c :: nat) in n = 10 \<or> n = 13)"

definition trim :: "string \<Rightarrow> string" where
  "trim s = rev (dropWhile is_ws (rev (dropWhile is_ws s)))"

definition is_upper :: "char \<Rightarrow> bool" where
  "is_upper c = (let n = (of_char c :: nat) in 65 \<le> n \<and> n \<le> 90)"

definition is_alpha :: "char \<Rightarrow> bool" where
  "is_alpha c = (let n = (of_char c :: nat) in (65 \<le> n \<and> n \<le> 90) \<or> (97 \<le> n \<and> n \<le> 122))"

definition is_digit :: "char \<Rightarrow> bool" where
  "is_digit c = (let n = (of_char c :: nat) in 48 \<le> n \<and> n \<le> 57)"

text \<open>The class \<open>[a-zA-Z0-9_-]\<close>.\<close>
definition is_idch :: "char \<Rightarrow> bool" where
  "is_idch c = (is_alpha c \<or> is_digit c \<or> c = CHR ''_'' \<or> c = CHR ''-'')"

text \<open>The classes \<open>[([{]\<close> and \<open>[)\]}]\<close>.\<close>
definition is_open :: "char \<Rightarrow> bool" where
  "is_open c = (c = CHR ''('' \<or> c = CHR ''['' \<or> c = CHR ''{'')"

definition is_close :: "char \<Rightarrow> bool" where
  "is_close c = (c = CHR '')'' \<or> c = CHR '']'' \<or> c = CHR ''}'')"

definition toLowerChar :: "char \<Rightarrow> char" where
  "toLowerChar c = (if is_upper c then char_of ((of_char c :: nat) + 32) else c)"

definition toLowerCase :: "string \<Rightarrow> string" where
  "toLowerCase s = map toLowerChar s"

text \<open>\<open>s.substring(a, b)\<close>: both indices are clamped to the length and swapped if needed.\<close>
definition substring :: "string \<Rightarrow> nat \<Rightarrow> nat \<Rightarrow> string" where
  "substring s a b =
     (let a' = min a (length s); b' = min b (length s)
      in take (max a' b' - min a' b') (drop (min a' b') s))"

text \<open>
  \<open>s.split(sep)\<close> for a separator that is a single character of the class \<open>P\<close>
  (\<open>split('.')\<close>, \<open>split(/[:=]/)\<close>): the pieces between the separators, the empty ones too.
\<close>
fun split_at :: "(char \<Rightarrow> bool) \<Rightarrow> string \<Rightarrow> string \<Rightarrow> string list" where
  "split_at P acc [] = [rev acc]"
| "split_at P acc (c # r) =
     (if P c then rev acc # split_at P [] r else split_at P (c # acc) r)"

text \<open>
  \<open>s.split(/\s*,\s*/)\<close>. The scan keeps the piece read so far (reversed) and the rest of
  the text. The separator matches at a position exactly when the white space starting
  there is followed by a comma; it then takes the white space after the comma too.
\<close>
function split_commas :: "string \<Rightarrow> string \<Rightarrow> string list" where
  "split_commas acc [] = [rev acc]"
| "split_commas acc (c # r) =
     (case dropWhile is_ws (c # r) of
        [] \<Rightarrow> split_commas (c # acc) r
      | d # t \<Rightarrow>
          if d = CHR '','' then rev acc # split_commas [] (dropWhile is_ws t)
          else split_commas (c # acc) r)"
  by pat_completeness auto

lemma length_dropWhile_tail:
  "dropWhile P xs = d # t \<Longrightarrow> length (dropWhile Q t) < length xs"
proof -
  assume h: "dropWhile P xs = d # t"
  have "length (dropWhile Q t) \<le> length t"
    by (rule length_dropWhile_le)
  moreover have "length (d # t) \<le> length xs"
    using length_dropWhile_le [of P xs] h by simp
  ultimately show ?thesis by simp
qed

termination split_commas
proof (relation "measure (\<lambda>(acc, r). length r)", goal_cases)
  case 1
  show ?case by simp
next
  case (2 acc c r)
  show ?case by simp
next
  case (3 acc c r d t)
  then show ?case
    using length_dropWhile_tail [of is_ws "c # r" d t is_ws] by simp
next
  case (4 acc c r d t)
  show ?case by simp
qed

section \<open>parseDomString\<close>

text \<open>
  The pattern of \<open>parseDomString\<close> is
  \<^verbatim>\<open>^([a-zA-Z]+)?(?:#([a-zA-Z0-9_-]+))?((?:\.[a-zA-Z0-9_-]+)*)?([([{].*?[)\]}])?(?: +(.*))?$\<close>
  and \<open>domString.match\<close> runs it with backtracking. The matcher below is that search made
  deterministic, segment by segment:
  \<^item> groups 1 to 3 are greedy runs over classes of characters that no later segment can
    start with, so giving back a character never lets the rest match: each run is
    maximal;
  \<^item> group 4 is lazy: after an opening bracket it stops at the first closing bracket from
    which the tail \<open>(?: +(.*))?$\<close> matches, and \<open>.\<close> does not cross a line terminator;
  \<^item> the tail matches the empty rest, or one or more spaces followed by a rest without
    line terminators.
\<close>
record matches =
  m1 :: "string option"
  m2 :: "string option"
  m3 :: "string option"
  m4 :: "string option"
  m5 :: "string option"

text \<open>\<open>(?: +(.*))?$\<close> matches the whole of \<open>r\<close>.\<close>
definition tail_ok :: "string \<Rightarrow> bool" where
  "tail_ok r = (case r of [] \<Rightarrow> True | c # t \<Rightarrow> c = CHR '' '' \<and> \<not> list_ex is_lt t)"

text \<open>\<open>(?:#([a-zA-Z0-9_-]+))?\<close>: the captured id and the rest.\<close>
definition id_seg :: "string \<Rightarrow> string option \<times> string" where
  "id_seg r =
     (case r of
        [] \<Rightarrow> (None, r)
      | c # t \<Rightarrow>
          if c = CHR ''#'' \<and> takeWhile is_idch t \<noteq> []
          then (Some (takeWhile is_idch t), dropWhile is_idch t)
          else (None, r))"

text \<open>\<open>((?:\.[a-zA-Z0-9_-]+)*)\<close>: the text of all the class tokens and the rest.\<close>
function classes_seg :: "string \<Rightarrow> string \<times> string" where
  "classes_seg [] = ([], [])"
| "classes_seg (c # t) =
     (if c = CHR ''.'' \<and> takeWhile is_idch t \<noteq> []
      then (case classes_seg (dropWhile is_idch t) of
              (m, rest) \<Rightarrow> (c # takeWhile is_idch t @ m, rest))
      else ([], c # t))"
  by pat_completeness auto

termination classes_seg
proof (relation "measure length", goal_cases)
  case 1
  show ?case by simp
next
  case (2 c t)
  show ?case
    using length_dropWhile_le [of is_idch t] by simp
qed

text \<open>
  \<open>.*?[)\]}]\<close> followed by the tail: \<open>acc\<close> is the text of the group so far, reversed.
\<close>
fun lazy_attrs :: "string \<Rightarrow> string \<Rightarrow> (string \<times> string) option" where
  "lazy_attrs acc [] = None"
| "lazy_attrs acc (c # r) =
     (if is_close c \<and> tail_ok r then Some (rev (c # acc), r)
      else if is_lt c then None
      else lazy_attrs (c # acc) r)"

text \<open>\<open>([([{].*?[)\]}])?\<close>: the captured block and the rest.\<close>
definition attrs_seg :: "string \<Rightarrow> string option \<times> string" where
  "attrs_seg r =
     (case r of
        [] \<Rightarrow> (None, r)
      | c # t \<Rightarrow>
          if is_open c
          then (case lazy_attrs [c] t of
                  None \<Rightarrow> (None, r)
                | Some (m, rest) \<Rightarrow> (Some m, rest))
          else (None, r))"

text \<open>\<open>domString.match(regex)\<close>: \<open>None\<close> is the \<open>null\<close> of a failed match.\<close>
definition regex_match :: "string \<Rightarrow> matches option" where
  "regex_match s =
     (let tag = takeWhile is_alpha s;
          r1 = dropWhile is_alpha s;
          (g2, r2) = id_seg r1;
          (g3, r3) = classes_seg r2;
          (g4, r4) = attrs_seg r3
      in if tail_ok r4
         then Some \<lparr> m1 = (if tag = [] then None else Some tag),
                     m2 = g2,
                     m3 = (if g3 = [] then None else Some g3),
                     m4 = g4,
                     m5 = (case r4 of [] \<Rightarrow> None
                           | c # t \<Rightarrow> Some (dropWhile (\<lambda>x. x = CHR '' '') r4)) \<rparr>
         else None)"

text \<open>
  \<open>attrs[name] = value\<close>, and every other write to a keyed list (the properties of a
  plain object, the attributes of a node): an existing key keeps its place.
\<close>
fun set_prop :: "string \<Rightarrow> 'a \<Rightarrow> (string \<times> 'a) list \<Rightarrow> (string \<times> 'a) list" where
  "set_prop k v [] = [(k, v)]"
| "set_prop k v (p # ps) = (if fst p = k then (k, v) # ps else p # set_prop k v ps)"

text \<open>The body of \<open>attrPairs.forEach\<close>.\<close>
definition attr_pair :: "string \<Rightarrow> (string \<times> jsval) list \<Rightarrow> (string \<times> jsval) list" where
  "attr_pair pair attrs =
     (if pair = [] then attrs
      else if CHR ''='' \<in> set pair \<or> CHR '':'' \<in> set pair
      then (let parts = take 2 (split_at (\<lambda>c. c = CHR '':'' \<or> c = CHR ''='') [] pair);
                name = (case parts of [] \<Rightarrow> ''undefined'' | p # ps \<Rightarrow> trim p);
                val = (if 1 < length parts then Str (trim (parts ! 1)) else Bool True)
            in set_prop name val attrs)
      else set_prop (trim pair) (Bool True) attrs)"

text \<open>\<open>m?.trim() || null\<close>\<close>
definition trim_or_null :: "string option \<Rightarrow> string option" where
  "trim_or_null m =
     (case m of None \<Rightarrow> None | Some s \<Rightarrow> if trim s = [] then None else Some (trim s))"

definition str_or_null :: "string option \<Rightarrow> jsval" where
  "str_or_null m = (case m of None \<Rightarrow> Null | Some s \<Rightarrow> Str s)"

definition parse_attrs :: "string option \<Rightarrow> (string \<times> jsval) list" where
  "parse_attrs rawAttrs =
     (case rawAttrs of
        None \<Rightarrow> []
      | Some raw \<Rightarrow>
          (let attrsContent = substring raw 1 (length raw - 1);
               attrPairs = split_commas [] attrsContent
           in fold attr_pair attrPairs []))"

text \<open>The result is \<open>Null\<close> or the object \<open>{tag, id, className, attrs, content}\<close>.\<close>
definition parseDomString :: "string \<Rightarrow> jsval" where
  "parseDomString domString =
     (case regex_match domString of
        None \<Rightarrow> Null
      | Some ms \<Rightarrow>
          (let tag = toLowerCase (case m1 ms of None \<Rightarrow> ''div''
                                  | Some t \<Rightarrow> if t = [] then ''div'' else t);
               ident = trim_or_null (m2 ms);
               classes = (case m3 ms of
                            None \<Rightarrow> []
                          | Some c \<Rightarrow>
                              if c = [] then []
                              else map trim (split_at (\<lambda>x. x = CHR ''.'') [] (drop 1 c)));
               rawAttrs = trim_or_null (m4 ms);
               content = trim_or_null (m5 ms);
               attrs = parse_attrs rawAttrs
           in Obj [(''tag'', Str tag),
                   (''id'', str_or_null ident),
                   (''className'', Str (join '' '' classes)),
                   (''attrs'', Obj attrs),
                   (''content'', str_or_null content)]))"

section \<open>Property access, spread and conversion to string\<close>

text \<open>
  \<open>v.k\<close> for a value that is not \<open>null\<close> or \<open>undefined\<close>. Only plain objects carry the
  properties the library reads (\<open>tag\<close>, \<open>id\<close>, \<open>class\<close>, \<open>className\<close>, \<open>attrs\<close>,
  \<open>content\<close>, \<open>condition\<close>, \<open>callback\<close>, \<open>children\<close>).
\<close>
fun get_prop :: "jsval \<Rightarrow> string \<Rightarrow> jsval" where
  "get_prop (Obj ps) k = (case map_of ps k of None \<Rightarrow> Undefined | Some v \<Rightarrow> v)"
| "get_prop v k = Undefined"

text \<open>
  \<open>v.k = w\<close>. The library assigns only after it has read a truthy property of the same
  value, so the value is a plain object whenever the assignment is reached.
\<close>
fun put_prop :: "jsval \<Rightarrow> string \<Rightarrow> jsval \<Rightarrow> jsval" where
  "put_prop (Obj ps) k w = Obj (set_prop k w ps)"
| "put_prop v k w = v"

text \<open>\<open>v[i]\<close> for a value that is not \<open>null\<close> or \<open>undefined\<close>.\<close>
fun index :: "jsval \<Rightarrow> nat \<Rightarrow> jsval" where
  "index (Arr xs) i = (if i < length xs then xs ! i else Undefined)"
| "index (Str s) i = (if i < length s then Str [s ! i] else Undefined)"
| "index (Obj ps) i = get_prop (Obj ps) (digits i)"
| "index v i = Undefined"

text \<open>The elements of an array; no elements for any other value.\<close>
fun elems :: "jsval \<Rightarrow> jsval list" where
  "elems (Arr xs) = xs"
| "elems v = []"

text \<open>The own enumerable properties that \<open>{...v}\<close> copies.\<close>
fun own_props :: "jsval \<Rightarrow> (string \<times> jsval) list" where
  "own_props (Obj ps) = ps"
| "own_props (Arr xs) = map (\<lambda>i. (digits i, xs ! i)) [0..<length xs]"
| "own_props (Str s) = map (\<lambda>i. (digits i, Str [s ! i])) [0..<length s]"
| "own_props v = []"

text \<open>Copying properties \<open>qs\<close> onto the properties \<open>ps\<close>, later ones winning.\<close>
definition assign :: "(string \<times> jsval) list \<Rightarrow> (string \<times> jsval) list \<Rightarrow> (string \<times> jsval) list" where
  "assign ps qs = fold (\<lambda>q acc. set_prop (fst q) (snd q) acc) qs ps"

text \<open>\<open>{...a, ...b}\<close>\<close>
definition spread2 :: "jsval \<Rightarrow> jsval \<Rightarrow> jsval" where
  "spread2 a b = Obj (assign (assign [] (own_props a)) (own_props b))"

text \<open>
  \<open>Object.entries(v)\<close> for a value that is an object but not an array: the properties of
  a plain object; an element has no own enumerable property.
\<close>
fun entries :: "jsval \<Rightarrow> jsval list" where
  "entries (Obj ps) = map (\<lambda>p. Arr [Str (fst p), snd p]) ps"
| "entries v = []"

section \<open>The host document\<close>

text \<open>
  The document is the capability the library consumes. A node has a local name, an
  ordered attribute list (\<open>className\<close> and \<open>id\<close> reflect the attributes \<open>class\<close> and
  \<open>id\<close>) and a list of children. A child is a reference to an element of the store or
  the markup assigned through \<open>innerHTML\<close>, which the model keeps unparsed.
  An element reference is its index in the store.

  What the host decides and the library does not is a parameter, the environment:
  the behaviour of the caller's functions, the text of a function or of an element when
  converted to a string, and which names \<open>createElement\<close> and \<open>setAttribute\<close> accept.

  An exception is a result \<open>Inl\<close>: \<open>TypeError\<close> from the language, the two DOM
  exceptions from the host. \<open>NoSuchNode\<close> belongs to the model alone: it answers a
  reference that is outside the store, which the library never creates.
\<close>
datatype child = Raw string | Ref nat

record node =
  localName :: string
  attributes :: "(string \<times> string) list"
  childNodes :: "child list"

datatype log_entry = ChildrenNotArray string

record state =
  nodes :: "node list"
  console :: "log_entry list"

datatype error = TypeError | InvalidCharacterError | HierarchyRequestError | NoSuchNode

record env =
  call :: "nat \<Rightarrow> jsval list \<Rightarrow> state \<Rightarrow> error + (jsval \<times> state)"
  hostString :: "jsval \<Rightarrow> string"
  validElementName :: "string \<Rightarrow> bool"
  validAttrName :: "string \<Rightarrow> bool"

text \<open>\<open>String(v)\<close>\<close>
fun ToString :: "env \<Rightarrow> jsval \<Rightarrow> string" where
  "ToString E Undefined = ''undefined''"
| "ToString E Null = ''null''"
| "ToString E (Bool b) = (if b then ''true'' else ''false'')"
| "ToString E (Num n) = show_int n"
| "ToString E (Str s) = s"
| "ToString E (Arr xs) = join '','' (map (\<lambda>x. if nullish x then [] else ToString E x) xs)"
| "ToString E (Obj ps) = ''[object Object]''"
| "ToString E (Fun f) = hostString E (Fun f)"
| "ToString E (Elem n) = hostString E (Elem n)"

text \<open>A write to one node; a reference outside the store has no node to write to.\<close>
definition update_node :: "nat \<Rightarrow> (node \<Rightarrow> node) \<Rightarrow> state \<Rightarrow> error + state" where
  "update_node n f st =
     (if n < length (nodes st)
      then Inr (st\<lparr>nodes := (nodes st)[n := f (nodes st ! n)]\<rparr>)
      else Inl NoSuchNode)"

definition createElement :: "env \<Rightarrow> string \<Rightarrow> state \<Rightarrow> error + (nat \<times> state)" where
  "createElement E name st =
     (if validElementName E name
      then Inr (length (nodes st),
                st\<lparr>nodes := nodes st @
                   [\<lparr>localName = toLowerCase name, attributes = [], childNodes = []\<rparr>]\<rparr>)
      else Inl InvalidCharacterError)"

text \<open>An existing attribute keeps its place; the name is lower-cased, as on an HTML element.\<close>
definition setAttribute :: "env \<Rightarrow> nat \<Rightarrow> string \<Rightarrow> string \<Rightarrow> state \<Rightarrow> error + state" where
  "setAttribute E n name v st =
     (if validAttrName E name
      then update_node n (\<lambda>nd. nd\<lparr>attributes := set_prop (toLowerCase name) v (attributes nd)\<rparr>) st
      else Inl InvalidCharacterError)"

definition set_className :: "nat \<Rightarrow> string \<Rightarrow> state \<Rightarrow> error + state" where
  "set_className n v st =
     update_node n (\<lambda>nd. nd\<lparr>attributes := set_prop ''class'' v (attributes nd)\<rparr>) st"

definition set_id :: "nat \<Rightarrow> string \<Rightarrow> state \<Rightarrow> error + state" where
  "set_id n v st =
     update_node n (\<lambda>nd. nd\<lparr>attributes := set_prop ''id'' v (attributes nd)\<rparr>) st"

text \<open>\<open>element.getAttribute(name)\<close>; \<open>None\<close> is its \<open>null\<close>.\<close>
definition getAttribute :: "state \<Rightarrow> nat \<Rightarrow> string \<Rightarrow> string option" where
  "getAttribute st n name =
     (if n < length (nodes st) then map_of (attributes (nodes st ! n)) name else None)"

text \<open>\<open>element.innerHTML = s\<close> replaces every child by the markup \<open>s\<close>.\<close>
definition set_innerHTML :: "nat \<Rightarrow> string \<Rightarrow> state \<Rightarrow> error + state" where
  "set_innerHTML n s st =
     update_node n (\<lambda>nd. nd\<lparr>childNodes := (if s = [] then [] else [Raw s])\<rparr>) st"

text \<open>\<open>b\<close> is \<open>a\<close> or a descendant of \<open>a\<close>, looking at most \<open>k\<close> levels down.\<close>
fun reaches :: "nat \<Rightarrow> node list \<Rightarrow> nat \<Rightarrow> nat \<Rightarrow> bool" where
  "reaches 0 ns a b = (a = b)"
| "reaches (Suc k) ns a b =
     (a = b \<or> (a < length ns \<and>
        list_ex (\<lambda>ch. case ch of Raw s \<Rightarrow> False | Ref c \<Rightarrow> reaches k ns c b)
                (childNodes (ns ! a))))"

text \<open>
  \<open>p.appendChild(c)\<close>: refused when \<open>c\<close> contains \<open>p\<close>; otherwise \<open>c\<close> leaves its former
  parent and becomes the last child of \<open>p\<close>.
\<close>
definition appendChild :: "nat \<Rightarrow> nat \<Rightarrow> state \<Rightarrow> error + state" where
  "appendChild p c st =
     (let ns = nodes st
      in if \<not> (p < length ns \<and> c < length ns) then Inl NoSuchNode
         else if reaches (length ns) ns c p then Inl HierarchyRequestError
         else (let ns' = map (\<lambda>nd. nd\<lparr>childNodes := removeAll (Ref c) (childNodes nd)\<rparr>) ns
               in Inr (st\<lparr>nodes := ns'[p := (ns' ! p)\<lparr>childNodes := childNodes (ns' ! p) @ [Ref c]\<rparr>]\<rparr>)))"

text \<open>\<open>p.appendChild(c)\<close> on values: both must be elements.\<close>
definition appendChild_val :: "jsval \<Rightarrow> jsval \<Rightarrow> state \<Rightarrow> error + state" where
  "appendChild_val p c st =
     (case p of
        Elem pn \<Rightarrow> (case c of Elem cn \<Rightarrow> appendChild pn cn st | _ \<Rightarrow> Inl TypeError)
      | _ \<Rightarrow> Inl TypeError)"

text \<open>The string an \<open>innerHTML\<close> assignment stores: \<open>null\<close> becomes the empty string.\<close>
definition markup_of :: "env \<Rightarrow> jsval \<Rightarrow> string" where
  "markup_of E v = (if v = Null then [] else ToString E v)"

section \<open>domBuilderBasicSetup\<close>

text \<open>Lines 10 to 12: \<open>class\<close> is copied into \<open>className\<close>.\<close>
definition class_alias :: "jsval \<Rightarrow> jsval" where
  "class_alias item =
     (if truthy (get_prop item ''class'') \<and> \<not> truthy (get_prop item ''className'')
      then put_prop item ''className'' (get_prop item ''class'')
      else item)"

text \<open>Lines 15 to 21: \<open>attrs\<close> is rewritten into an array of pairs.\<close>
definition normalize_attrs :: "jsval \<Rightarrow> jsval" where
  "normalize_attrs item =
     (let a = get_prop item ''attrs''
      in if truthy a \<and> isArray a \<and> \<not> isArray (index a 0)
         then put_prop item ''attrs'' (Arr [a])
         else if typeof_object a \<and> \<not> isArray a \<and> a \<noteq> Null
         then put_prop item ''attrs'' (Arr (entries a))
         else item)"

text \<open>\<open>(attrs ?? [])\<close> as the receiver of \<open>forEach\<close>: only an array has that method.\<close>
definition attrs_list :: "jsval \<Rightarrow> error + jsval list" where
  "attrs_list a =
     (if nullish a then Inr []
      else (case a of Arr xs \<Rightarrow> Inr xs | _ \<Rightarrow> Inl TypeError))"

text \<open>Lines 24 to 26, the body of the loop over the attributes.\<close>
definition apply_attr :: "env \<Rightarrow> nat \<Rightarrow> jsval \<Rightarrow> state \<Rightarrow> error + state" where
  "apply_attr E n attr st =
     (if nullish attr then Inl TypeError
      else if nullish (index attr 1) then Inr st
      else setAttribute E n (ToString E (index attr 0)) (ToString E (index attr 1)) st)"

fun apply_attrs :: "env \<Rightarrow> nat \<Rightarrow> jsval list \<Rightarrow> state \<Rightarrow> error + state" where
  "apply_attrs E n [] st = Inr st"
| "apply_attrs E n (attr # rest) st =
     (case apply_attr E n attr st of
        Inl e \<Rightarrow> Inl e
      | Inr st' \<Rightarrow> apply_attrs E n rest st')"

text \<open>The value of lines 31 to 33.\<close>
definition class_string :: "env \<Rightarrow> jsval \<Rightarrow> string" where
  "class_string E cn =
     (case cn of
        Arr xs \<Rightarrow> join '' '' (map (ToString E) (filter truthy xs))
      | _ \<Rightarrow> ToString E cn)"

text \<open>Lines 30 to 34.\<close>
definition apply_className :: "env \<Rightarrow> nat \<Rightarrow> jsval \<Rightarrow> state \<Rightarrow> error + state" where
  "apply_className E n item st =
     (if truthy (get_prop item ''className'')
      then set_className n (class_string E (get_prop item ''className'')) st
      else Inr st)"

text \<open>Lines 35 to 37.\<close>
definition apply_id :: "env \<Rightarrow> nat \<Rightarrow> jsval \<Rightarrow> state \<Rightarrow> error + state" where
  "apply_id E n item st =
     (if truthy (get_prop item ''id'')
      then set_id n (ToString E (get_prop item ''id'')) st
      else Inr st)"

text \<open>
  The function returns the element it was given; the model returns the record as the
  call leaves it, and the new state. The element is a reference to a node. Reading
  \<open>domBuilderItem.class\<close> on \<open>null\<close> or \<open>undefined\<close> is a \<open>TypeError\<close>.
\<close>
definition domBuilderBasicSetup :: "env \<Rightarrow> nat \<Rightarrow> jsval \<Rightarrow> state \<Rightarrow> error + (jsval \<times> state)" where
  "domBuilderBasicSetup E element domBuilderItem st =
     (if nullish domBuilderItem then Inl TypeError
      else
       (let item = normalize_attrs (class_alias domBuilderItem)
        in case attrs_list (get_prop item ''attrs'') of
             Inl e \<Rightarrow> Inl e
           | Inr as \<Rightarrow>
               (case apply_attrs E element as st of
                  Inl e \<Rightarrow> Inl e
                | Inr st1 \<Rightarrow>
                    (case apply_className E element item st1 of
                       Inl e \<Rightarrow> Inl e
                     | Inr st2 \<Rightarrow>
                         (case apply_id E element item st2 of
                            Inl e \<Rightarrow> Inl e
                          | Inr st3 \<Rightarrow> Inr (item, st3))))))"

section \<open>domBuilder\<close>

text \<open>The variables of \<open>domBuilder\<close> that the loop over the items reads and writes.\<close>
record locals =
  mainElement :: jsval
  el :: jsval
  grand_parent :: jsval
  parent :: jsval

text \<open>Lines 88 to 90: a string that is not empty is replaced by its parse.\<close>
definition lower_item :: "jsval \<Rightarrow> jsval" where
  "lower_item item =
     (case item of
        Str s \<Rightarrow> if s \<noteq> [] then parseDomString s else item
      | _ \<Rightarrow> item)"

text \<open>Line 94: \<open>item != null && (item.condition ?? true)\<close>.\<close>
definition enabled :: "jsval \<Rightarrow> bool" where
  "enabled item =
     (\<not> nullish item \<and> truthy (nullish_or (get_prop item ''condition'') (Bool True)))"

text \<open>
  Lines 103 to 125, the loop over a tag chain. It carries the item (whose \<open>attrs\<close> the
  last round rewrites), \<open>el\<close> and \<open>parent\<close>. A segment that is not a string has no
  \<open>match\<close> method, and a segment that does not parse is \<open>null\<close>, whose properties cannot
  be read: both are a \<open>TypeError\<close>.
\<close>
fun tag_chain :: "env \<Rightarrow> jsval list \<Rightarrow> jsval \<Rightarrow> jsval \<Rightarrow> jsval \<Rightarrow> state
    \<Rightarrow> error + (jsval \<times> jsval \<times> jsval \<times> state)" where
  "tag_chain E [] item e par st = Inr (item, e, par, st)"
| "tag_chain E (tagItem # rest) item e par st =
     (let isLast = (rest = [])
      in case tagItem of
           Str s \<Rightarrow>
             (let parsedItem = parseDomString s
              in if parsedItem = Null then Inl TypeError
                 else
                  (let item' =
                         (if isLast
                          then put_prop item ''attrs''
                                 (spread2 (nullish_or (get_prop parsedItem ''attrs'') (Obj []))
                                          (nullish_or (get_prop item ''attrs'') (Obj [])))
                          else item)
                   in case createElement E
                             (ToString E (if truthy (get_prop parsedItem ''tag'')
                                          then get_prop parsedItem ''tag'' else Str ''div'')) st of
                        Inl err \<Rightarrow> Inl err
                      | Inr (n, st1) \<Rightarrow>
                          (case domBuilderBasicSetup E n
                                  (spread2 parsedItem
                                     (if isLast then nullish_or item' (Obj []) else Obj [])) st1 of
                             Inl err \<Rightarrow> Inl err
                           | Inr (spec, st2) \<Rightarrow>
                               if \<not> isLast
                               then (case (if truthy par then appendChild_val par (Elem n) st2
                                           else Inr st2) of
                                       Inl err \<Rightarrow> Inl err
                                     | Inr st3 \<Rightarrow> tag_chain E rest item' (Elem n) (Elem n) st3)
                               else tag_chain E rest item' (Elem n) par st2)))
         | _ \<Rightarrow> Inl TypeError)"

text \<open>
  Lines 99 to 132: the element of the item. The result is the item as the step leaves it,
  the variables and the state.
\<close>
definition make_element :: "env \<Rightarrow> jsval \<Rightarrow> locals \<Rightarrow> state \<Rightarrow> error + (jsval \<times> locals \<times> state)" where
  "make_element E item L st =
     (if isArray (get_prop item ''tag'')
      then (let L1 = L\<lparr>grand_parent := parent L\<rparr>
            in case tag_chain E (elems (get_prop item ''tag'')) item (el L1) (parent L1) st of
                 Inl err \<Rightarrow> Inl err
               | Inr (item', e, par, st') \<Rightarrow> Inr (item', L1\<lparr>el := e, parent := par\<rparr>, st'))
      else (case createElement E
                   (ToString E (nullish_or (get_prop item ''tag'') (Str ''div''))) st of
              Inl err \<Rightarrow> Inl err
            | Inr (n, st1) \<Rightarrow>
                (case domBuilderBasicSetup E n item st1 of
                   Inl err \<Rightarrow> Inl err
                 | Inr (item', st2) \<Rightarrow> Inr (item', L\<lparr>el := Elem n\<rparr>, st2))))"

text \<open>
  \<open>e.innerHTML = v\<close>: \<open>e\<close> is \<open>undefined\<close> or an element when the library assigns.
\<close>
definition set_innerHTML_val :: "env \<Rightarrow> jsval \<Rightarrow> jsval \<Rightarrow> state \<Rightarrow> error + state" where
  "set_innerHTML_val E e v st =
     (case e of Elem n \<Rightarrow> set_innerHTML n (markup_of E v) st | _ \<Rightarrow> Inl TypeError)"

text \<open>Lines 135 to 151.\<close>
definition resolve_content :: "env \<Rightarrow> jsval \<Rightarrow> jsval \<Rightarrow> state \<Rightarrow> error + state" where
  "resolve_content E item e st =
     (if truthy (get_prop item ''content'')
      then (case (if typeof_function (get_prop item ''content'')
                  then (case get_prop item ''content'' of
                          Fun f \<Rightarrow> call E f [] st
                        | _ \<Rightarrow> Inl TypeError)
                  else if \<not> nullish (get_prop item ''content'')
                  then Inr (Str (ToString E (get_prop item ''content'')), st)
                  else Inr (Str [], st)) of
              Inl err \<Rightarrow> Inl err
            | Inr (content, st1) \<Rightarrow>
                (case content of
                   Elem c \<Rightarrow> appendChild_val e content st1
                 | _ \<Rightarrow> set_innerHTML_val E e content st1))
      else Inr st)"

text \<open>Lines 154 to 157: the report of a \<open>children\<close> field that is not an array.\<close>
definition check_children :: "env \<Rightarrow> jsval \<Rightarrow> state \<Rightarrow> state" where
  "check_children E item st =
     (if \<not> nullish (get_prop item ''children'') \<and> \<not> isArray (get_prop item ''children'')
      then st\<lparr>console := console st @ [ChildrenNotArray (ToString E (get_prop item ''children''))]\<rparr>
      else st)"

text \<open>Lines 162 to 177.\<close>
definition finish_item :: "env \<Rightarrow> jsval \<Rightarrow> locals \<Rightarrow> state \<Rightarrow> error + (locals \<times> state)" where
  "finish_item E item L st =
     (let L1 = (if nullish (mainElement L) then L\<lparr>mainElement := el L\<rparr> else L)
      in case (if truthy (parent L1) then appendChild_val (parent L1) (el L1) st else Inr st) of
           Inl err \<Rightarrow> Inl err
         | Inr st1 \<Rightarrow>
             (case (if truthy (get_prop item ''callback'') \<and> typeof_function (get_prop item ''callback'')
                    then (case get_prop item ''callback'' of
                            Fun f \<Rightarrow> (case call E f [el L1] st1 of
                                        Inl err \<Rightarrow> Inl err
                                      | Inr (r, st2) \<Rightarrow> Inr st2)
                          | _ \<Rightarrow> Inl TypeError)
                    else Inr st1) of
                Inl err \<Rightarrow> Inl err
              | Inr st2 \<Rightarrow>
                  Inr (if truthy (grand_parent L1) then L1\<lparr>parent := grand_parent L1\<rparr> else L1, st2)))"

text \<open>The variables at the start of a call with the given parent (line 80).\<close>
definition init_locals :: "jsval \<Rightarrow> locals" where
  "init_locals par = \<lparr>mainElement = Null, el = Undefined, grand_parent = Null, parent = par\<rparr>"

lemma size_map_of:
  "map_of ps k = Some v \<Longrightarrow> size v < size (Obj ps)"
  by (induction ps) (auto split: if_splits)

lemma size_elems_get_prop:
  "size_list size (elems (get_prop v k)) < Suc (size v)"
proof (cases v)
  case (Obj ps)
  show ?thesis
  proof (cases "map_of ps k")
    case None
    with Obj show ?thesis by simp
  next
    case (Some w)
    have "size_list size (elems w) \<le> size w"
      by (cases w) simp_all
    with size_map_of [OF Some] Obj Some show ?thesis by simp
  qed
qed simp_all

lemma get_prop_set_prop_other:
  "k \<noteq> k' \<Longrightarrow> map_of (set_prop k w ps) k' = map_of ps k'"
  by (induction ps) auto

lemma get_prop_put_prop_other:
  "k \<noteq> k' \<Longrightarrow> get_prop (put_prop v k w) k' = get_prop v k'"
  by (cases v) (simp_all add: get_prop_set_prop_other)

lemma children_class_alias:
  "get_prop (class_alias item) ''children'' = get_prop item ''children''"
  by (simp add: class_alias_def get_prop_put_prop_other)

lemma children_normalize_attrs:
  "get_prop (normalize_attrs item) ''children'' = get_prop item ''children''"
  by (simp add: normalize_attrs_def Let_def get_prop_put_prop_other)

lemma children_domBuilderBasicSetup:
  "domBuilderBasicSetup E n item st = Inr (item', st')
   \<Longrightarrow> get_prop item' ''children'' = get_prop item ''children''"
  by (auto simp: domBuilderBasicSetup_def Let_def children_class_alias children_normalize_attrs
           split: sum.splits if_splits)

lemma children_tag_chain:
  "tag_chain E tags item e par st = Inr (item', e', par', st')
   \<Longrightarrow> get_prop item' ''children'' = get_prop item ''children''"
proof (induction tags arbitrary: item e par st)
  case Nil
  then show ?case by simp
next
  case (Cons t tags)
  from Cons.prems show ?case
    by (auto simp: Let_def get_prop_put_prop_other
             split: jsval.splits if_splits sum.splits prod.splits
             dest!: Cons.IH)
qed

lemma children_make_element:
  "make_element E item L st = Inr (item', L', st')
   \<Longrightarrow> get_prop item' ''children'' = get_prop item ''children''"
  by (auto simp: make_element_def Let_def
           split: if_splits sum.splits prod.splits
           dest: children_tag_chain children_domBuilderBasicSetup)

lemma children_parseDomString:
  "get_prop (parseDomString s) ''children'' = Undefined"
  by (simp add: parseDomString_def Let_def split: option.splits)

lemma size_children_lower_item:
  "size_list size (elems (get_prop (lower_item item) ''children'')) < Suc (size item)"
proof (cases "\<exists>s. item = Str s")
  case True
  then show ?thesis
    by (auto simp: lower_item_def children_parseDomString)
next
  case False
  then have "lower_item item = item"
    by (cases item) (simp_all add: lower_item_def)
  then show ?thesis
    using size_elems_get_prop [of item "''children''"] by simp
qed

lemma size_children_make_element:
  assumes "make_element E (lower_item item0) L st = Inr (item, L1, st1)"
  shows "size_list size (elems (get_prop item ''children'')) < Suc (size item0)"
proof -
  have "get_prop item ''children'' = get_prop (lower_item item0) ''children''"
    using assms by (rule children_make_element)
  then show ?thesis
    using size_children_lower_item [of item0] by simp
qed

text \<open>
  Lines 86 to 180, the loop over the items. The call of line 159,
  \<open>domBuilder(item.children, el, {emptyParent: false})\<close>, clears nothing and its result
  is dropped: it is the same loop over the children, started on fresh variables with
  \<open>el\<close> as the parent. An exception ends the loop.
\<close>
function forEach_item :: "env \<Rightarrow> jsval list \<Rightarrow> locals \<Rightarrow> state \<Rightarrow> error + (locals \<times> state)" where
  "forEach_item E [] L st = Inr (L, st)"
| "forEach_item E (item0 # rest) L st =
     (if enabled (lower_item item0)
      then (case make_element E (lower_item item0) L st of
              Inl err \<Rightarrow> Inl err
            | Inr (item, L1, st1) \<Rightarrow>
                (case resolve_content E item (el L1) st1 of
                   Inl err \<Rightarrow> Inl err
                 | Inr st2 \<Rightarrow>
                     (case (if truthy (get_prop item ''children'') \<and> isArray (get_prop item ''children'')
                            then (case forEach_item E (elems (get_prop item ''children''))
                                         (init_locals (el L1)) (check_children E item st2) of
                                    Inl err \<Rightarrow> Inl err
                                  | Inr (Lc, st3) \<Rightarrow> Inr st3)
                            else Inr (check_children E item st2)) of
                        Inl err \<Rightarrow> Inl err
                      | Inr st4 \<Rightarrow>
                          (case finish_item E item L1 st4 of
                             Inl err \<Rightarrow> Inl err
                           | Inr (L2, st5) \<Rightarrow> forEach_item E rest L2 st5))))
      else forEach_item E rest L st)"
  by pat_completeness auto

termination forEach_item
  by (relation "measure (\<lambda>(E, items, L, st). size_list size items)")
     (auto dest: size_children_make_element)

text \<open>
  Lines 72 to 84 and 182. \<open>options\<close> is \<open>undefined\<close> when the caller leaves it out.
  Clearing a parent that is an element empties it; on another object the assignment
  stores a property and shows nowhere; on a primitive it is a \<open>TypeError\<close>.
\<close>
definition clear_parent :: "jsval \<Rightarrow> state \<Rightarrow> error + state" where
  "clear_parent par st =
     (case par of
        Elem p \<Rightarrow> set_innerHTML p [] st
      | Obj ps \<Rightarrow> Inr st
      | Arr xs \<Rightarrow> Inr st
      | Fun f \<Rightarrow> Inr st
      | _ \<Rightarrow> Inl TypeError)"

definition domBuilder :: "env \<Rightarrow> jsval list \<Rightarrow> jsval \<Rightarrow> jsval \<Rightarrow> state \<Rightarrow> error + (jsval \<times> state)" where
  "domBuilder E structureArray par options st =
     (let options' = spread2 (Obj [(''emptyParent'', Bool False)]) options
      in case (if truthy par \<and> truthy (get_prop options' ''emptyParent'')
               then clear_parent par st else Inr st) of
           Inl err \<Rightarrow> Inl err
         | Inr st1 \<Rightarrow>
             (case forEach_item E structureArray (init_locals par) st1 of
                Inl err \<Rightarrow> Inl err
              | Inr (L, st2) \<Rightarrow> Inr (mainElement L, st2)))"

section \<open>A sample environment for concrete runs\<close>

text \<open>
  The functions of the sample environment have no effect and return a value fixed by
  their identifier; names are accepted when they are not empty and hold no white space.
\<close>
definition sample_result :: "nat \<Rightarrow> jsval" where
  "sample_result f =
     (if f = 0 then Num 0 else if f = 1 then Elem 0 else if f = 2 then Null else Undefined)"

definition sample_env :: env where
  "sample_env =
     \<lparr> call = (\<lambda>f args st. Inr (sample_result f, st)),
       hostString = (\<lambda>v. case v of Fun f \<Rightarrow> ''function () {}''
                              | _ \<Rightarrow> ''[object HTMLElement]''),
       validElementName = (\<lambda>s. s \<noteq> [] \<and> \<not> list_ex is_ws s),
       validAttrName = (\<lambda>s. s \<noteq> [] \<and> \<not> list_ex is_ws s) \<rparr>"

definition empty_document :: state where
  "empty_document = \<lparr> nodes = [], console = [] \<rparr>"

text \<open>A document with one element, number 0, to serve as the parent.\<close>
definition body_document :: state where
  "body_document =
     \<lparr> nodes = [\<lparr>localName = ''body'', attributes = [], childNodes = []\<rparr>], console = [] \<rparr>"

text \<open>The class list of a node: the tokens of its \<open>class\<close> attribute.\<close>
definition is_html_space :: "char \<Rightarrow> bool" where
  "is_html_space c =
     (let n = (of_char c :: nat) in n = 9 \<or> n = 10 \<or> n = 12 \<or> n = 13 \<or> n = 32)"

definition classList :: "state \<Rightarrow> nat \<Rightarrow> string list" where
  "classList st n =
     (case getAttribute st n ''class'' of
        None \<Rightarrow> []
      | Some v \<Rightarrow> filter (\<lambda>w. w \<noteq> []) (split_at is_html_space [] v))"

section \<open>The vocabulary of the properties\<close>

subsection \<open>The writes of domBuilderBasicSetup\<close>

text \<open>
  Every effect of \<open>domBuilderBasicSetup\<close> on the document is a write to the attribute
  list of its element. The definitions of this section name those writes, so that the
  properties of the function can be read off a list.
\<close>
text \<open>A list of writes, applied in order to an attribute list.\<close>
definition put_all :: "(string \<times> string) list \<Rightarrow> (string \<times> string) list \<Rightarrow> (string \<times> string) list" where
  "put_all ws A = fold (\<lambda>w acc. set_prop (fst w) (snd w) acc) ws A"

text \<open>The writes applied to the attributes of node \<open>n\<close>, where it exists.\<close>
definition write_attrs :: "nat \<Rightarrow> (string \<times> string) list \<Rightarrow> state \<Rightarrow> state" where
  "write_attrs n ws st =
     st\<lparr>nodes := (nodes st)[n := (nodes st ! n)\<lparr>attributes := put_all ws (attributes (nodes st ! n))\<rparr>]\<rparr>"

text \<open>The writes of the loop over the attributes, and the condition under which none raises.\<close>
fun attr_writes :: "env \<Rightarrow> jsval list \<Rightarrow> (string \<times> string) list" where
  "attr_writes E [] = []"
| "attr_writes E (attr # rest) =
     (if nullish (index attr 1) then attr_writes E rest
      else (toLowerCase (ToString E (index attr 0)), ToString E (index attr 1)) # attr_writes E rest)"

fun attrs_ok :: "env \<Rightarrow> jsval list \<Rightarrow> bool" where
  "attrs_ok E [] = True"
| "attrs_ok E (attr # rest) =
     (\<not> nullish attr \<and> (nullish (index attr 1) \<or> validAttrName E (ToString E (index attr 0)))
      \<and> attrs_ok E rest)"

text \<open>All the writes of a call on the record \<open>item\<close>, which has been normalised.\<close>
definition setup_writes :: "env \<Rightarrow> jsval \<Rightarrow> (string \<times> string) list" where
  "setup_writes E item =
     attr_writes E (elems (get_prop item ''attrs''))
     @ (if truthy (get_prop item ''className'')
        then [(''class'', class_string E (get_prop item ''className''))] else [])
     @ (if truthy (get_prop item ''id'')
        then [(''id'', ToString E (get_prop item ''id''))] else [])"

definition class_writes :: "env \<Rightarrow> jsval \<Rightarrow> (string \<times> string) list" where
  "class_writes E item =
     (if truthy (get_prop item ''className'')
      then [(''class'', class_string E (get_prop item ''className''))] else [])"

definition id_writes :: "env \<Rightarrow> jsval \<Rightarrow> (string \<times> string) list" where
  "id_writes E item =
     (if truthy (get_prop item ''id'')
      then [(''id'', ToString E (get_prop item ''id''))] else [])"

subsection \<open>The grammar of parseDomString\<close>

text \<open>
  The language of the pattern, read off its five segments: a string is in the grammar
  when it splits into a tag of letters, an optional \<open>#id\<close>, any number of \<open>.class\<close>
  tokens, an optional attribute block from an opening to a closing bracket with no line
  terminator in between, and an optional content that starts with a space and holds no
  line terminator. Every part may be empty.
\<close>
inductive class_tokens :: "string \<Rightarrow> bool" where
  no_token: "class_tokens []"
| token: "x \<noteq> [] \<Longrightarrow> list_all is_idch x \<Longrightarrow> class_tokens r
          \<Longrightarrow> class_tokens (CHR ''.'' # x @ r)"

definition in_tag :: "string \<Rightarrow> bool" where
  "in_tag t = list_all is_alpha t"

definition in_id :: "string \<Rightarrow> bool" where
  "in_id i = (i = [] \<or> (\<exists>x. i = CHR ''#'' # x \<and> x \<noteq> [] \<and> list_all is_idch x))"

definition in_attrs :: "string \<Rightarrow> bool" where
  "in_attrs a =
     (a = [] \<or> (\<exists>b u c. a = b # u @ [c] \<and> is_open b \<and> is_close c \<and> \<not> list_ex is_lt u))"

definition in_content :: "string \<Rightarrow> bool" where
  "in_content k =
     (k = [] \<or> (\<exists>sp rest. k = sp @ rest \<and> sp \<noteq> [] \<and> list_all (\<lambda>c. c = CHR '' '') sp
                   \<and> \<not> list_ex is_lt rest))"

definition grammar :: "string \<Rightarrow> bool" where
  "grammar s =
     (\<exists>t i c a k. s = t @ i @ c @ a @ k
        \<and> in_tag t \<and> in_id i \<and> class_tokens c \<and> in_attrs a \<and> in_content k)"

text \<open>What a part of the grammar, followed by later parts, can start with.\<close>
definition starts :: "(char \<Rightarrow> bool) \<Rightarrow> string \<Rightarrow> bool" where
  "starts P r = (case r of [] \<Rightarrow> True | c # t \<Rightarrow> P c)"

section \<open>parseDomString: the strings it accepts (C5)\<close>

subsection \<open>The characters that start and end the segments\<close>

lemma open_not_alpha: "is_open c \<Longrightarrow> \<not> is_alpha c"
  by (auto simp: is_open_def is_alpha_def)

lemma open_not_idch: "is_open c \<Longrightarrow> \<not> is_idch c"
  by (auto simp: is_open_def is_idch_def is_alpha_def is_digit_def)

lemma open_not_marks: "is_open c \<Longrightarrow> c \<noteq> CHR ''#'' \<and> c \<noteq> CHR ''.'' \<and> c \<noteq> CHR '' ''"
  by (auto simp: is_open_def)

lemma marks_not_alpha:
  "\<not> is_alpha CHR ''#''" "\<not> is_alpha CHR ''.''" "\<not> is_alpha CHR '' ''"
  by (simp_all add: is_alpha_def)

lemma marks_not_idch:
  "\<not> is_idch CHR ''#''" "\<not> is_idch CHR ''.''" "\<not> is_idch CHR '' ''"
  by (simp_all add: is_idch_def is_alpha_def is_digit_def)

lemma space_plain: "\<not> is_open CHR '' ''" "\<not> is_lt CHR '' ''"
  by (simp_all add: is_open_def is_lt_def)

lemma marks_not_open: "\<not> is_open CHR ''#''" "\<not> is_open CHR ''.''"
  by (simp_all add: is_open_def)

lemma starts_Nil [simp]: "starts P []"
  by (simp add: starts_def)

lemma starts_Cons [simp]: "starts P (c # t) = P c"
  by (simp add: starts_def)

lemma starts_mono: "starts P r \<Longrightarrow> (\<And>c. P c \<Longrightarrow> Q c) \<Longrightarrow> starts Q r"
  by (cases r) auto

lemma starts_append: "starts P a \<Longrightarrow> starts P b \<Longrightarrow> starts P (a @ b)"
  by (cases a) auto

lemma takeWhile_part:
  "list_all P t \<Longrightarrow> starts (\<lambda>c. \<not> P c) r \<Longrightarrow>
   takeWhile P (t @ r) = t \<and> dropWhile P (t @ r) = r"
  by (induction t) (auto simp: starts_def split: list.splits)

lemma tail_ok_content: "tail_ok k \<longleftrightarrow> in_content k"
proof
  assume "tail_ok k"
  show "in_content k"
  proof (cases k)
    case Nil
    then show ?thesis by (simp add: in_content_def)
  next
    case (Cons c t)
    with \<open>tail_ok k\<close> have "k = [CHR '' ''] @ t \<and> \<not> list_ex is_lt t"
      by (simp add: tail_ok_def)
    then show ?thesis
      unfolding in_content_def by (intro disjI2 exI [of _ "[CHR '' '']"] exI [of _ t]) simp
  qed
next
  assume "in_content k"
  then consider "k = []"
    | sp rest where "k = sp @ rest" "sp \<noteq> []" "list_all (\<lambda>c. c = CHR '' '') sp"
        "\<not> list_ex is_lt rest"
    unfolding in_content_def by blast
  then show "tail_ok k"
  proof cases
    case 1
    then show ?thesis by (simp add: tail_ok_def)
  next
    case 2
    then obtain sp' where sp: "sp = CHR '' '' # sp'" and all: "list_all (\<lambda>c. c = CHR '' '') sp'"
      by (cases sp) auto
    from all have "\<not> list_ex is_lt sp'"
      by (induction sp') (auto simp: space_plain)
    with 2 sp show ?thesis
      by (auto simp: tail_ok_def list_ex_iff)
  qed
qed

lemma content_starts: "in_content k \<Longrightarrow> starts (\<lambda>c. c = CHR '' '') k"
  unfolding tail_ok_content [symmetric] by (cases k) (simp_all add: tail_ok_def)

lemma attrs_starts: "in_attrs a \<Longrightarrow> starts is_open a"
  by (auto simp: in_attrs_def)

lemma class_tokens_starts: "class_tokens c \<Longrightarrow> starts (\<lambda>x. x = CHR ''.'') c"
  by (cases rule: class_tokens.cases) auto

subsection \<open>Each segment of the matcher against its part of the grammar\<close>

lemma id_seg_sound: "id_seg r = (g, r') \<Longrightarrow> \<exists>i. r = i @ r' \<and> in_id i"
proof (cases r)
  case Nil
  assume "id_seg r = (g, r')"
  with Nil show ?thesis by (simp add: id_seg_def in_id_def)
next
  case (Cons c t)
  assume h: "id_seg r = (g, r')"
  show ?thesis
  proof (cases "c = CHR ''#'' \<and> takeWhile is_idch t \<noteq> []")
    case True
    with h Cons have "r' = dropWhile is_idch t" by (simp add: id_seg_def)
    with True Cons have "r = (CHR ''#'' # takeWhile is_idch t) @ r'
        \<and> in_id (CHR ''#'' # takeWhile is_idch t)"
      by (auto simp: in_id_def list_all_iff dest: set_takeWhileD)
    then show ?thesis by blast
  next
    case False
    with h Cons have "r' = r" by (auto simp: id_seg_def)
    then have "r = [] @ r' \<and> in_id []" by (simp add: in_id_def)
    then show ?thesis by blast
  qed
qed

lemma id_seg_complete:
  assumes "in_id i" and "starts (\<lambda>c. c = CHR ''.'' \<or> is_open c \<or> c = CHR '' '') r"
  shows "snd (id_seg (i @ r)) = r"
proof (cases "i = []")
  case True
  show ?thesis
  proof (cases r)
    case Nil
    with True show ?thesis by (simp add: id_seg_def)
  next
    case (Cons c t)
    with assms(2) have "c \<noteq> CHR ''#''"
      by (auto simp: marks_not_open)
    with True Cons show ?thesis by (simp add: id_seg_def)
  qed
next
  case False
  with assms(1) obtain x where i: "i = CHR ''#'' # x" and x: "x \<noteq> []" "list_all is_idch x"
    by (auto simp: in_id_def)
  have "starts (\<lambda>c. \<not> is_idch c) r"
    using assms(2) by (rule starts_mono) (auto simp: marks_not_idch open_not_idch)
  with x have "takeWhile is_idch (x @ r) = x \<and> dropWhile is_idch (x @ r) = r"
    by (simp add: takeWhile_part)
  with i x show ?thesis by (simp add: id_seg_def)
qed

lemma classes_seg_sound: "classes_seg r = (g, r') \<Longrightarrow> r = g @ r' \<and> class_tokens g"
proof (induction r arbitrary: g r' rule: classes_seg.induct)
  case 1
  then show ?case by (simp add: class_tokens.no_token)
next
  case (2 c t)
  show ?case
  proof (cases "c = CHR ''.'' \<and> takeWhile is_idch t \<noteq> []")
    case True
    obtain m rest where rec: "classes_seg (dropWhile is_idch t) = (m, rest)"
      by (cases "classes_seg (dropWhile is_idch t)")
    with "2.IH" True have ih: "dropWhile is_idch t = m @ rest \<and> class_tokens m"
      by blast
    from "2.prems" True rec have g: "g = c # takeWhile is_idch t @ m" and r': "r' = rest"
      by simp_all
    have "list_all is_idch (takeWhile is_idch t)"
      by (auto simp: list_all_iff dest: set_takeWhileD)
    with True ih have "class_tokens (CHR ''.'' # takeWhile is_idch t @ m)"
      by (intro class_tokens.token) simp_all
    moreover have "c # t = (c # takeWhile is_idch t @ m) @ rest"
      using ih takeWhile_dropWhile_id [of is_idch t] by simp
    ultimately show ?thesis
      using True g r' by simp
  next
    case False
    with "2.prems" show ?thesis
      by (auto simp: class_tokens.no_token)
  qed
qed

lemma classes_seg_complete:
  assumes "class_tokens c" and "starts (\<lambda>x. is_open x \<or> x = CHR '' '') r"
  shows "classes_seg (c @ r) = (c, r)"
  using assms
proof (induction c rule: class_tokens.induct)
  case no_token
  show ?case
  proof (cases r)
    case Nil
    then show ?thesis by simp
  next
    case (Cons x t)
    with no_token have "x \<noteq> CHR ''.''"
      by (auto simp: marks_not_open)
    with Cons show ?thesis by simp
  qed
next
  case (token x c')
  have "starts (\<lambda>y. \<not> is_idch y) (c' @ r)"
  proof (rule starts_append)
    show "starts (\<lambda>y. \<not> is_idch y) c'"
      using class_tokens_starts [OF token.hyps(3)]
      by (rule starts_mono) (simp add: marks_not_idch)
    show "starts (\<lambda>y. \<not> is_idch y) r"
      using token.prems
      by (rule starts_mono) (auto simp: marks_not_idch open_not_idch)
  qed
  with token.hyps have "takeWhile is_idch (x @ c' @ r) = x
                        \<and> dropWhile is_idch (x @ c' @ r) = c' @ r"
    by (simp add: takeWhile_part)
  with token show ?case by simp
qed

lemma lazy_attrs_sound:
  "lazy_attrs acc r = Some (m, rest) \<Longrightarrow>
   \<exists>u c. r = u @ c # rest \<and> is_close c \<and> \<not> list_ex is_lt u \<and> m = rev acc @ u @ [c]
         \<and> tail_ok rest"
proof (induction r arbitrary: acc)
  case Nil
  then show ?case by simp
next
  case (Cons x r)
  show ?case
  proof (cases "is_close x \<and> tail_ok r")
    case True
    with Cons.prems have "x # r = [] @ x # rest \<and> is_close x \<and> \<not> list_ex is_lt []
        \<and> m = rev acc @ [] @ [x] \<and> tail_ok rest"
      by auto
    then show ?thesis by blast
  next
    case False
    with Cons.prems have nlt: "\<not> is_lt x" and rec: "lazy_attrs (x # acc) r = Some (m, rest)"
      by (auto split: if_splits)
    from Cons.IH [OF rec] obtain u c where
      "r = u @ c # rest" "is_close c" "\<not> list_ex is_lt u" "m = rev (x # acc) @ u @ [c]"
      "tail_ok rest"
      by blast
    with nlt have "x # r = (x # u) @ c # rest \<and> is_close c \<and> \<not> list_ex is_lt (x # u)
        \<and> m = rev acc @ (x # u) @ [c] \<and> tail_ok rest"
      by simp
    then show ?thesis by blast
  qed
qed

lemma lazy_attrs_complete:
  "\<not> list_ex is_lt u \<Longrightarrow> is_close c \<Longrightarrow> tail_ok k \<Longrightarrow>
   \<exists>m r. lazy_attrs acc (u @ c # k) = Some (m, r) \<and> tail_ok r"
  by (induction u arbitrary: acc) auto

lemma attrs_seg_sound:
  "attrs_seg r = (g, r') \<Longrightarrow> tail_ok r' \<Longrightarrow> \<exists>a. r = a @ r' \<and> in_attrs a"
proof (cases r)
  case Nil
  assume "attrs_seg r = (g, r')"
  with Nil show ?thesis by (simp add: attrs_seg_def in_attrs_def)
next
  case (Cons b t)
  assume h: "attrs_seg r = (g, r')"
  show ?thesis
  proof (cases "is_open b \<and> lazy_attrs [b] t \<noteq> None")
    case True
    then obtain m rest where l: "lazy_attrs [b] t = Some (m, rest)"
      by auto
    with h Cons True have r': "r' = rest" by (simp add: attrs_seg_def)
    from lazy_attrs_sound [OF l] obtain u c where
      "t = u @ c # rest" "is_close c" "\<not> list_ex is_lt u"
      by blast
    with True Cons r' have "r = (b # u @ [c]) @ r' \<and> in_attrs (b # u @ [c])"
      by (auto simp: in_attrs_def)
    then show ?thesis by blast
  next
    case False
    with h Cons have "r' = r"
      by (auto simp: attrs_seg_def split: option.splits)
    then have "r = [] @ r' \<and> in_attrs []" by (simp add: in_attrs_def)
    then show ?thesis by blast
  qed
qed

lemma attrs_seg_complete:
  assumes "in_attrs a" and "in_content k"
  shows "tail_ok (snd (attrs_seg (a @ k)))"
proof (cases "a = []")
  case True
  have k: "tail_ok k" using assms(2) by (simp add: tail_ok_content)
  show ?thesis
  proof (cases k)
    case Nil
    with True show ?thesis by (simp add: attrs_seg_def tail_ok_def)
  next
    case (Cons c t)
    with k have "\<not> is_open c" by (auto simp: tail_ok_def space_plain)
    with True Cons k show ?thesis by (simp add: attrs_seg_def)
  qed
next
  case False
  with assms(1) obtain b u c where a: "a = b # u @ [c]" "is_open b" "is_close c"
      "\<not> list_ex is_lt u"
    by (auto simp: in_attrs_def)
  have "tail_ok k" using assms(2) by (simp add: tail_ok_content)
  with a obtain m r where "lazy_attrs [b] (u @ c # k) = Some (m, r)" "tail_ok r"
    using lazy_attrs_complete by blast
  with a show ?thesis by (simp add: attrs_seg_def)
qed

subsection \<open>The matcher accepts exactly the grammar\<close>

lemma regex_match_tail:
  "regex_match s = None \<longleftrightarrow>
   \<not> tail_ok (snd (attrs_seg (snd (classes_seg (snd (id_seg (dropWhile is_alpha s)))))))"
  by (simp add: regex_match_def Let_def split: prod.splits)

lemma regex_match_sound:
  assumes "regex_match s \<noteq> None"
  shows "grammar s"
proof -
  let ?r1 = "dropWhile is_alpha s"
  obtain g2 r2 where s2: "id_seg ?r1 = (g2, r2)" by (cases "id_seg ?r1")
  obtain g3 r3 where s3: "classes_seg r2 = (g3, r3)" by (cases "classes_seg r2")
  obtain g4 r4 where s4: "attrs_seg r3 = (g4, r4)" by (cases "attrs_seg r3")
  from assms have t: "tail_ok r4"
    unfolding regex_match_tail by (simp add: s2 s3 s4)
  from id_seg_sound [OF s2] obtain i where i: "?r1 = i @ r2" "in_id i" by blast
  from classes_seg_sound [OF s3] have c: "r2 = g3 @ r3" "class_tokens g3" by simp_all
  from attrs_seg_sound [OF s4 t] obtain a where a: "r3 = a @ r4" "in_attrs a" by blast
  have "s = takeWhile is_alpha s @ i @ g3 @ a @ r4"
    using takeWhile_dropWhile_id [of is_alpha s] i(1) c(1) a(1) by simp
  moreover have "in_tag (takeWhile is_alpha s)"
    by (auto simp: in_tag_def list_all_iff dest: set_takeWhileD)
  moreover have "in_content r4"
    using t by (simp add: tail_ok_content)
  ultimately show ?thesis
    unfolding grammar_def using i(2) c(2) a(2) by blast
qed

lemma regex_match_complete:
  assumes "grammar s"
  shows "regex_match s \<noteq> None"
proof -
  from assms obtain t i c a k where s: "s = t @ i @ c @ a @ k"
    and p: "in_tag t" "in_id i" "class_tokens c" "in_attrs a" "in_content k"
    unfolding grammar_def by blast
  have ak: "starts (\<lambda>x. is_open x \<or> x = CHR '' '') (a @ k)"
    by (rule starts_append)
       (auto intro: starts_mono [OF attrs_starts [OF p(4)]] starts_mono [OF content_starts [OF p(5)]])
  have cak: "starts (\<lambda>x. x = CHR ''.'' \<or> is_open x \<or> x = CHR '' '') (c @ a @ k)"
    by (rule starts_append)
       (auto intro: starts_mono [OF class_tokens_starts [OF p(3)]] starts_mono [OF ak])
  have "starts (\<lambda>x. \<not> is_alpha x) (i @ c @ a @ k)"
  proof (rule starts_append)
    show "starts (\<lambda>x. \<not> is_alpha x) i"
      using p(2) by (auto simp: in_id_def marks_not_alpha)
    show "starts (\<lambda>x. \<not> is_alpha x) (c @ a @ k)"
      using cak by (rule starts_mono) (auto simp: marks_not_alpha open_not_alpha)
  qed
  with p(1) have "dropWhile is_alpha s = i @ c @ a @ k"
    by (simp add: s in_tag_def takeWhile_part)
  moreover have "snd (id_seg (i @ c @ a @ k)) = c @ a @ k"
    using p(2) cak by (rule id_seg_complete)
  moreover have "snd (classes_seg (c @ a @ k)) = a @ k"
    using classes_seg_complete [OF p(3) ak] by simp
  moreover have "tail_ok (snd (attrs_seg (a @ k)))"
    using p(4,5) by (rule attrs_seg_complete)
  ultimately show ?thesis
    unfolding regex_match_tail by simp
qed

lemma parse_null_iff: "parseDomString s = Null \<longleftrightarrow> regex_match s = None"
  by (simp add: parseDomString_def Let_def split: option.splits)

lemma parse_bang: "parseDomString ''!'' = Null"
  by code_simp

lemma parse_empty:
  "parseDomString [] =
     Obj [(''tag'', Str ''div''), (''id'', Null), (''className'', Str []),
          (''attrs'', Obj []), (''content'', Null)]"
  by code_simp

text \<open>
  C5, as stated: \<open>parseDomString\<close> returns a fragment for every string. It does not: the
  pattern is anchored at both ends, and a character that no segment can take, as in
  \<open>!\<close>, makes the match fail and the function return \<open>null\<close>.
\<close>
theorem parse_total_counterexample:
  "parseDomString ''!'' = Null"
  by code_simp

text \<open>
  C5, amended: \<open>parseDomString\<close> returns \<open>null\<close> exactly for the strings outside the
  grammar, and a fragment for every string of the grammar. Every segment is optional,
  so the empty string is in the grammar, and its fragment holds the defaults: tag
  \<open>div\<close>, no id, no classes, no attributes, no content.
\<close>
theorem parse_null_exactly_outside_grammar:
  "(parseDomString s \<noteq> Null \<longleftrightarrow> grammar s)
   \<and> grammar []
   \<and> parseDomString [] =
       Obj [(''tag'', Str ''div''), (''id'', Null), (''className'', Str []),
            (''attrs'', Obj []), (''content'', Null)]"
proof (intro conjI)
  show "parseDomString s \<noteq> Null \<longleftrightarrow> grammar s"
    using regex_match_sound [of s] regex_match_complete [of s]
    by (auto simp: parse_null_iff)
  have "parseDomString [] \<noteq> Null"
    by (simp add: parse_empty)
  then show "grammar []"
    using regex_match_sound [of "[]"] by (simp add: parse_null_iff)
  show "parseDomString [] =
       Obj [(''tag'', Str ''div''), (''id'', Null), (''className'', Str []),
            (''attrs'', Obj []), (''content'', Null)]"
    by (rule parse_empty)
qed

lemma parse_sample:
  "parseDomString ''p#main-info.info.active{data-id:123,role=button} text content'' =
     Obj [(''tag'', Str ''p''), (''id'', Str ''main-info''),
          (''className'', Str ''info active''),
          (''attrs'', Obj [(''data-id'', Str ''123''), (''role'', Str ''button'')]),
          (''content'', Str ''text content'')]"
  by code_simp

theorem parse_null_exactly_outside_grammar_witness:
  "grammar ''p#main-info.info.active{data-id:123,role=button} text content''
   \<and> \<not> grammar ''!''"
  using parse_null_exactly_outside_grammar
          [of "''p#main-info.info.active{data-id:123,role=button} text content''"]
        parse_null_exactly_outside_grammar [of "''!''"]
  by (simp add: parse_sample parse_bang)

section \<open>The attribute block (C7)\<close>

text \<open>
  C7. The claim: a piece of the attribute block is split at its first \<open>:\<close> or \<open>=\<close>, and
  the value is all that follows, so \<open>a:b:c\<close> gives the name \<open>a\<close> and the value \<open>b:c\<close>.
  Line 85 splits at every separator and keeps the first two parts: the value is \<open>b\<close>.
\<close>
theorem attr_value_stops_at_second_separator:
  "parseDomString ''div(a:b:c)'' =
     Obj [(''tag'', Str ''div''), (''id'', Null), (''className'', Str []),
          (''attrs'', Obj [(''a'', Str ''b'')]), (''content'', Null)]"
  by code_simp

section \<open>domBuilderBasicSetup as a list of writes\<close>

lemma put_all_Nil [simp]: "put_all [] A = A"
  by (simp add: put_all_def)

lemma put_all_Cons [simp]: "put_all (w # ws) A = put_all ws (set_prop (fst w) (snd w) A)"
  by (simp add: put_all_def)

lemma put_all_append: "put_all (ws @ vs) A = put_all vs (put_all ws A)"
  by (simp add: put_all_def)

lemma length_write_attrs [simp]: "length (nodes (write_attrs n ws st)) = length (nodes st)"
  by (simp add: write_attrs_def)

lemma console_write_attrs [simp]: "console (write_attrs n ws st) = console st"
  by (simp add: write_attrs_def)

lemma write_attrs_Nil [simp]: "write_attrs n [] st = st"
  by (simp add: write_attrs_def)

lemma write_attrs_twice:
  "write_attrs n vs (write_attrs n ws st) = write_attrs n (ws @ vs) st"
  by (cases "n < length (nodes st)")
     (simp_all add: write_attrs_def put_all_append list_update_beyond)

lemma nth_write_attrs_other: "m \<noteq> n \<Longrightarrow> nodes (write_attrs n ws st) ! m = nodes st ! m"
  by (simp add: write_attrs_def)

lemma nth_write_attrs_same:
  "n < length (nodes st) \<Longrightarrow>
   nodes (write_attrs n ws st) ! n =
     (nodes st ! n)\<lparr>attributes := put_all ws (attributes (nodes st ! n))\<rparr>"
  by (simp add: write_attrs_def)

lemma setAttribute_Inr:
  "setAttribute E n name v st = Inr st' \<longleftrightarrow>
     validAttrName E name \<and> n < length (nodes st)
     \<and> st' = write_attrs n [(toLowerCase name, v)] st"
  by (auto simp: setAttribute_def update_node_def write_attrs_def)

lemma set_className_Inr:
  "set_className n v st = Inr st' \<longleftrightarrow>
     n < length (nodes st) \<and> st' = write_attrs n [(''class'', v)] st"
  by (auto simp: set_className_def update_node_def write_attrs_def)

lemma set_id_Inr:
  "set_id n v st = Inr st' \<longleftrightarrow>
     n < length (nodes st) \<and> st' = write_attrs n [(''id'', v)] st"
  by (auto simp: set_id_def update_node_def write_attrs_def)

lemma apply_attrs_Inr:
  "apply_attrs E n as st = Inr st' \<longleftrightarrow>
     attrs_ok E as \<and> (attr_writes E as = [] \<or> n < length (nodes st))
     \<and> st' = write_attrs n (attr_writes E as) st"
proof (induction as arbitrary: st)
  case Nil
  show ?case by auto
next
  case (Cons attr rest)
  show ?case
  proof (cases "nullish attr \<or> nullish (index attr 1)")
    case True
    then show ?thesis
      using Cons.IH [of st] by (auto simp: apply_attr_def)
  next
    case False
    let ?w = "(toLowerCase (ToString E (index attr 0)), ToString E (index attr 1))"
    have step: "apply_attr E n attr st = setAttribute E n (ToString E (index attr 0)) (snd ?w) st"
      using False by (simp add: apply_attr_def)
    show ?thesis
    proof (cases "validAttrName E (ToString E (index attr 0)) \<and> n < length (nodes st)")
      case True
      then have "apply_attr E n attr st = Inr (write_attrs n [?w] st)"
        using step by (simp add: setAttribute_Inr)
      then show ?thesis
        using False True Cons.IH [of "write_attrs n [?w] st"]
        by (auto simp: write_attrs_twice)
    next
      case nok: False
      then have "\<forall>s. apply_attr E n attr st \<noteq> Inr s"
        using step by (auto simp: setAttribute_Inr)
      then have "apply_attr E n attr st = Inl (projl (apply_attr E n attr st))"
        by (cases "apply_attr E n attr st") auto
      then have "\<forall>s. apply_attrs E n (attr # rest) st \<noteq> Inr s"
        by (metis apply_attrs.simps(2) sum.case(1) sum.distinct(1))
      then show ?thesis
        using False nok by auto
    qed
  qed
qed

lemma sum_bind_Inr:
  "(case r of Inl e \<Rightarrow> Inl e | Inr x \<Rightarrow> f x) = Inr y \<longleftrightarrow> (\<exists>x. r = Inr x \<and> f x = Inr y)"
  by (cases r) auto

lemma setup_writes_parts:
  "setup_writes E item =
     attr_writes E (elems (get_prop item ''attrs'')) @ class_writes E item @ id_writes E item"
  by (simp add: setup_writes_def class_writes_def id_writes_def)

lemma apply_className_Inr:
  "apply_className E n item st = Inr st' \<longleftrightarrow>
     (class_writes E item = [] \<or> n < length (nodes st))
     \<and> st' = write_attrs n (class_writes E item) st"
  by (auto simp: apply_className_def class_writes_def set_className_Inr)

lemma apply_id_Inr:
  "apply_id E n item st = Inr st' \<longleftrightarrow>
     (id_writes E item = [] \<or> n < length (nodes st))
     \<and> st' = write_attrs n (id_writes E item) st"
  by (auto simp: apply_id_def id_writes_def set_id_Inr)

text \<open>The whole of a successful call, in one equation.\<close>
lemma domBuilderBasicSetup_Inr:
  "domBuilderBasicSetup E n item st = Inr (item', st') \<longleftrightarrow>
     \<not> nullish item
     \<and> item' = normalize_attrs (class_alias item)
     \<and> (nullish (get_prop item' ''attrs'') \<or> isArray (get_prop item' ''attrs''))
     \<and> attrs_ok E (elems (get_prop item' ''attrs''))
     \<and> (setup_writes E item' = [] \<or> n < length (nodes st))
     \<and> st' = write_attrs n (setup_writes E item') st"
proof (cases "nullish item")
  case True
  then show ?thesis
    by (simp add: domBuilderBasicSetup_def)
next
  case notnull: False
  let ?item = "normalize_attrs (class_alias item)"
  let ?a = "get_prop ?item ''attrs''"
  show ?thesis
  proof (cases "nullish ?a \<or> isArray ?a")
    case False
    then have "attrs_list ?a = Inl TypeError"
      by (cases ?a) (auto simp: attrs_list_def nullish_def)
    then show ?thesis
      using False by (auto simp: domBuilderBasicSetup_def Let_def)
  next
    case True
    then have al: "attrs_list ?a = Inr (elems ?a)"
      by (cases ?a) (auto simp: attrs_list_def nullish_def)
    have "domBuilderBasicSetup E n item st = Inr (item', st') \<longleftrightarrow>
          (\<exists>st1. apply_attrs E n (elems ?a) st = Inr st1 \<and>
             (\<exists>st2. apply_className E n ?item st1 = Inr st2 \<and>
                (\<exists>st3. apply_id E n ?item st2 = Inr st3 \<and> item' = ?item \<and> st' = st3)))"
      using notnull by (auto simp: domBuilderBasicSetup_def Let_def al split: sum.splits)
    also have "\<dots> \<longleftrightarrow>
          item' = ?item \<and> attrs_ok E (elems ?a)
          \<and> (setup_writes E ?item = [] \<or> n < length (nodes st))
          \<and> st' = write_attrs n (setup_writes E ?item) st"
      by (auto simp: apply_attrs_Inr apply_className_Inr apply_id_Inr setup_writes_parts
                     write_attrs_twice)
    finally show ?thesis
      using True notnull by auto
  qed
qed

lemma nullish_normalized: "nullish (normalize_attrs (class_alias item)) = nullish item"
  by (cases item) (auto simp: class_alias_def normalize_attrs_def Let_def nullish_def)

subsection \<open>Writing the same list twice\<close>

lemma keys_set_prop: "fst ` set (set_prop k v A) = insert k (fst ` set A)"
  by (induction A) auto

lemma keys_put_all: "fst ` set (put_all ws A) = fst ` set ws \<union> fst ` set A"
  by (induction ws arbitrary: A) (auto simp: keys_set_prop)

lemma set_prop_overwrite: "set_prop k v (set_prop k v' A) = set_prop k v A"
  by (induction A) auto

lemma set_prop_commute:
  "k \<noteq> k' \<Longrightarrow> k' \<in> fst ` set A \<Longrightarrow>
   set_prop k v (set_prop k' v' A) = set_prop k' v' (set_prop k v A)"
  by (induction A) auto

lemma map_of_set_prop:
  "map_of (set_prop k v A) k' = (if k' = k then Some v else map_of A k')"
  by (induction A) auto

text \<open>
  A write that is repeated at the end makes an earlier write to the same key
  irrelevant, provided the writes in between only touch keys that are present.
\<close>
lemma last_write_absorbs:
  "fst ` set ws \<subseteq> fst ` set C \<Longrightarrow>
   set_prop k v (put_all ws (set_prop k v0 C)) = set_prop k v (put_all ws C)"
proof (induction ws arbitrary: C)
  case Nil
  show ?case by (simp add: set_prop_overwrite)
next
  case (Cons w ws)
  obtain k1 v1 where w: "w = (k1, v1)" by (cases w)
  from Cons.prems w have k1: "k1 \<in> fst ` set C" and rest: "fst ` set ws \<subseteq> fst ` set C"
    by auto
  show ?case
  proof (cases "k1 = k")
    case True
    then show ?thesis
      by (simp add: w set_prop_overwrite)
  next
    case False
    then have "set_prop k1 v1 (set_prop k v0 C) = set_prop k v0 (set_prop k1 v1 C)"
      using set_prop_commute [of k k1 C v0 v1] k1 by simp
    moreover have "fst ` set ws \<subseteq> fst ` set (set_prop k1 v1 C)"
      using rest by (auto simp: keys_set_prop)
    ultimately show ?thesis
      using Cons.IH [of "set_prop k1 v1 C"] by (simp add: w)
  qed
qed

lemma put_all_twice: "put_all ws (put_all ws A) = put_all ws A"
proof (induction ws rule: rev_induct)
  case Nil
  show ?case by simp
next
  case (snoc w ws)
  obtain k v where w: "w = (k, v)" by (cases w)
  have "put_all (ws @ [w]) (put_all (ws @ [w]) A)
          = set_prop k v (put_all ws (set_prop k v (put_all ws A)))"
    by (simp add: put_all_append w)
  also have "\<dots> = set_prop k v (put_all ws (put_all ws A))"
    by (rule last_write_absorbs) (simp add: keys_put_all)
  also have "\<dots> = set_prop k v (put_all ws A)"
    by (simp add: snoc.IH)
  finally show ?case
    by (simp add: put_all_append w)
qed

lemma write_attrs_same_twice:
  "write_attrs n ws (write_attrs n ws st) = write_attrs n ws st"
  by (cases "n < length (nodes st)")
     (simp_all add: write_attrs_def put_all_twice list_update_beyond)

subsection \<open>The record after a call\<close>

lemma truthy_get_prop_Obj: "truthy (get_prop v k) \<Longrightarrow> \<exists>ps. v = Obj ps"
  by (cases v) simp_all

lemma defined_get_prop_Obj: "get_prop v k \<noteq> Undefined \<Longrightarrow> \<exists>ps. v = Obj ps"
  by (cases v) simp_all

lemma get_prop_put_prop_same: "get_prop (put_prop (Obj ps) k w) k = w"
  by (simp add: map_of_set_prop)

lemma get_prop_class_alias_other:
  "k \<noteq> ''className'' \<Longrightarrow> get_prop (class_alias item) k = get_prop item k"
  by (auto simp: class_alias_def get_prop_put_prop_other)

lemma get_prop_normalize_attrs_other:
  "k \<noteq> ''attrs'' \<Longrightarrow> get_prop (normalize_attrs item) k = get_prop item k"
  by (auto simp: normalize_attrs_def Let_def get_prop_put_prop_other)

lemma className_class_alias:
  "get_prop (class_alias item) ''className'' =
     (if truthy (get_prop item ''class'') \<and> \<not> truthy (get_prop item ''className'')
      then get_prop item ''class'' else get_prop item ''className'')"
proof (cases "truthy (get_prop item ''class'') \<and> \<not> truthy (get_prop item ''className'')")
  case True
  then obtain ps where "item = Obj ps"
    using truthy_get_prop_Obj by blast
  with True show ?thesis
    by (simp add: class_alias_def map_of_set_prop)
next
  case False
  then show ?thesis
    by (auto simp: class_alias_def)
qed

lemma attrs_normalize_attrs:
  "get_prop (normalize_attrs item) ''attrs'' =
     (let a = get_prop item ''attrs''
      in if truthy a \<and> isArray a \<and> \<not> isArray (index a 0) then Arr [a]
         else if typeof_object a \<and> \<not> isArray a \<and> a \<noteq> Null then Arr (entries a)
         else a)"
proof (cases "get_prop item ''attrs'' = Undefined")
  case True
  then show ?thesis
    by (simp add: normalize_attrs_def)
next
  case False
  then obtain ps where "item = Obj ps"
    using defined_get_prop_Obj by blast
  then show ?thesis
    by (simp add: normalize_attrs_def Let_def map_of_set_prop)
qed

lemma class_alias_fixed:
  "\<not> (truthy (get_prop x ''class'') \<and> \<not> truthy (get_prop x ''className''))
   \<Longrightarrow> class_alias x = x"
  by (auto simp: class_alias_def)

lemma class_alias_normalized:
  "class_alias (normalize_attrs (class_alias item)) = normalize_attrs (class_alias item)"
  by (rule class_alias_fixed)
     (simp add: className_class_alias get_prop_class_alias_other
                get_prop_normalize_attrs_other)

lemma isArray_entries: "x \<in> set (entries a) \<Longrightarrow> isArray x"
  by (cases a) auto

text \<open>After the normalisation, the first element of a non-empty \<open>attrs\<close> is an array.\<close>
lemma normalized_attrs_shape:
  assumes h: "get_prop (normalize_attrs item) ''attrs'' = Arr (x # xs)"
  shows "isArray x"
proof -
  let ?a = "get_prop item ''attrs''"
  let ?wrap = "truthy ?a \<and> isArray ?a \<and> \<not> isArray (index ?a 0)"
  let ?ent = "typeof_object ?a \<and> \<not> isArray ?a \<and> ?a \<noteq> Null"
  show ?thesis
  proof (cases ?wrap)
    case True
    with h have "x = ?a"
      by (simp add: attrs_normalize_attrs)
    with True show ?thesis by simp
  next
    case nowrap: False
    show ?thesis
    proof (cases ?ent)
      case True
      with nowrap h have "entries ?a = x # xs"
        by (simp add: attrs_normalize_attrs Let_def)
      then have "x \<in> set (entries ?a)" by simp
      then show ?thesis by (rule isArray_entries)
    next
      case False
      with nowrap h have a: "?a = Arr (x # xs)"
        by (auto simp: attrs_normalize_attrs Let_def split: if_splits)
      with nowrap show ?thesis by simp
    qed
  qed
qed

text \<open>
  Normalising again leaves \<open>attrs\<close> as it is, but for the empty array, which is wrapped
  into an array holding one empty pair: a pair that writes nothing.
\<close>
lemma attrs_normalized_again:
  assumes "get_prop (normalize_attrs item) ''attrs'' = a"
    and "nullish a \<or> isArray a"
  shows "get_prop (normalize_attrs (normalize_attrs item)) ''attrs'' =
           (if a = Arr [] then Arr [Arr []] else a)"
proof (cases a)
  case (Arr xs)
  show ?thesis
  proof (cases xs)
    case Nil
    with Arr assms(1) show ?thesis
      by (simp add: attrs_normalize_attrs [of "normalize_attrs item"])
  next
    case (Cons x xs')
    with Arr assms(1) have "isArray x"
      using normalized_attrs_shape by blast
    with Arr Cons assms(1) show ?thesis
      by (simp add: attrs_normalize_attrs [of "normalize_attrs item"])
  qed
qed (use assms in \<open>auto simp: attrs_normalize_attrs [of "normalize_attrs item"] nullish_def\<close>)

lemma second_call_record:
  fixes item :: jsval
  defines "item2 \<equiv> normalize_attrs (class_alias item)"
  defines "item3 \<equiv> normalize_attrs (class_alias item2)"
  assumes ok: "nullish (get_prop item2 ''attrs'') \<or> isArray (get_prop item2 ''attrs'')"
  shows "setup_writes E item3 = setup_writes E item2"
    and "attrs_ok E (elems (get_prop item3 ''attrs'')) = attrs_ok E (elems (get_prop item2 ''attrs''))"
    and "nullish (get_prop item3 ''attrs'') \<or> isArray (get_prop item3 ''attrs'')"
proof -
  have i3: "item3 = normalize_attrs item2"
    by (simp add: item3_def item2_def class_alias_normalized)
  have a3: "get_prop item3 ''attrs'' =
              (if get_prop item2 ''attrs'' = Arr [] then Arr [Arr []] else get_prop item2 ''attrs'')"
    unfolding i3 item2_def
    by (rule attrs_normalized_again) (use ok in \<open>simp_all add: item2_def\<close>)
  have other: "get_prop item3 ''className'' = get_prop item2 ''className''"
      "get_prop item3 ''id'' = get_prop item2 ''id''"
    by (simp_all add: i3 get_prop_normalize_attrs_other)
  show "setup_writes E item3 = setup_writes E item2"
    by (simp add: setup_writes_def other a3 nullish_def)
  show "attrs_ok E (elems (get_prop item3 ''attrs'')) = attrs_ok E (elems (get_prop item2 ''attrs''))"
    by (simp add: a3 nullish_def)
  show "nullish (get_prop item3 ''attrs'') \<or> isArray (get_prop item3 ''attrs'')"
    using ok by (simp add: a3)
qed

subsection \<open>Reading an attribute after the writes\<close>

text \<open>The last write to a key decides its value; a key never written keeps its value.\<close>
lemma map_of_put_all:
  "map_of (put_all ws A) k =
     (case map_of (rev ws) k of None \<Rightarrow> map_of A k | Some v \<Rightarrow> Some v)"
proof (induction ws arbitrary: A)
  case Nil
  show ?case by simp
next
  case (Cons w ws)
  obtain k1 v1 where w: "w = (k1, v1)" by (cases w)
  show ?case
    by (simp add: Cons.IH w map_of_set_prop map_add_def split: option.splits)
qed

lemma getAttribute_write_attrs:
  "n < length (nodes st) \<Longrightarrow>
   getAttribute (write_attrs n ws st) n k =
     (case map_of (rev ws) k of None \<Rightarrow> getAttribute st n k | Some v \<Rightarrow> Some v)"
  by (cases "map_of (rev ws) k")
     (simp_all add: getAttribute_def nth_write_attrs_same map_of_put_all)

lemma getAttribute_setup:
  assumes "domBuilderBasicSetup E n item st = Inr (item', st')"
  shows "getAttribute st' n k =
           (case map_of (rev (setup_writes E item')) k of
              None \<Rightarrow> getAttribute st n k | Some v \<Rightarrow> Some v)"
proof (cases "setup_writes E item' = []")
  case True
  with assms show ?thesis
    by (simp add: domBuilderBasicSetup_Inr)
next
  case False
  with assms have "n < length (nodes st)" and "st' = write_attrs n (setup_writes E item') st"
    by (simp_all add: domBuilderBasicSetup_Inr)
  then show ?thesis
    by (simp add: getAttribute_write_attrs)
qed

lemma fields_after_setup:
  assumes "domBuilderBasicSetup E n item st = Inr (item', st')"
  shows "get_prop item' ''id'' = get_prop item ''id''"
    and "get_prop item' ''className'' =
           (if truthy (get_prop item ''class'') \<and> \<not> truthy (get_prop item ''className'')
            then get_prop item ''class'' else get_prop item ''className'')"
proof -
  from assms have i: "item' = normalize_attrs (class_alias item)"
    by (simp add: domBuilderBasicSetup_Inr)
  show "get_prop item' ''id'' = get_prop item ''id''"
    by (simp add: i get_prop_normalize_attrs_other get_prop_class_alias_other)
  show "get_prop item' ''className'' =
           (if truthy (get_prop item ''class'') \<and> \<not> truthy (get_prop item ''className'')
            then get_prop item ''class'' else get_prop item ''className'')"
    by (simp add: i get_prop_normalize_attrs_other className_class_alias)
qed

section \<open>The record is rewritten (C6)\<close>

lemma setup_rewrites_record_run:
  "domBuilderBasicSetup sample_env 0
       (Obj [(''class'', Str ''c''), (''attrs'', Obj [(''title'', Str ''t'')])])
       body_document =
     Inr (Obj [(''class'', Str ''c''),
               (''attrs'', Arr [Arr [Str ''title'', Str ''t'']]),
               (''className'', Str ''c'')],
          \<lparr>nodes = [\<lparr>localName = ''body'',
                      attributes = [(''title'', ''t''), (''class'', ''c'')],
                      childNodes = []\<rparr>],
           console = []\<rparr>)"
  by code_simp

text \<open>
  C6, as stated: the record passed to \<open>domBuilderBasicSetup\<close> is unchanged after the
  call. It is not: lines 11, 16 and 20 assign to the record. Here a record with \<open>class\<close>
  and a mapping for \<open>attrs\<close> comes back with \<open>className\<close> filled in and \<open>attrs\<close> turned
  into a sequence of pairs.
\<close>
theorem setup_frame_counterexample:
  "domBuilderBasicSetup sample_env 0
       (Obj [(''class'', Str ''c''), (''attrs'', Obj [(''title'', Str ''t'')])])
       body_document =
     Inr (Obj [(''class'', Str ''c''),
               (''attrs'', Arr [Arr [Str ''title'', Str ''t'']]),
               (''className'', Str ''c'')],
          \<lparr>nodes = [\<lparr>localName = ''body'',
                      attributes = [(''title'', ''t''), (''class'', ''c'')],
                      childNodes = []\<rparr>],
           console = []\<rparr>)
   \<and> Obj [(''class'', Str ''c''),
          (''attrs'', Arr [Arr [Str ''title'', Str ''t'']]),
          (''className'', Str ''c'')]
     \<noteq> Obj [(''class'', Str ''c''), (''attrs'', Obj [(''title'', Str ''t'')])]"
  by (simp add: setup_rewrites_record_run)

text \<open>
  C6, amended: a call that returns changes the attributes of its node and two fields of
  the record, and nothing else. \<open>className\<close> takes the value of \<open>class\<close> when \<open>class\<close> is
  truthy and \<open>className\<close> is not; \<open>attrs\<close> becomes a sequence of pairs when it was a
  single pair or a mapping; every other field of the record keeps its value. In the
  document, the console, the number of nodes, every other node, and the name and the
  children of the node itself are as before.
\<close>
theorem setup_frame:
  assumes "domBuilderBasicSetup E n item st = Inr (item', st')"
  shows "(\<forall>k. k \<noteq> ''className'' \<and> k \<noteq> ''attrs'' \<longrightarrow> get_prop item' k = get_prop item k)
       \<and> get_prop item' ''className'' =
           (if truthy (get_prop item ''class'') \<and> \<not> truthy (get_prop item ''className'')
            then get_prop item ''class'' else get_prop item ''className'')
       \<and> get_prop item' ''attrs'' =
           (let a = get_prop item ''attrs''
            in if truthy a \<and> isArray a \<and> \<not> isArray (index a 0) then Arr [a]
               else if typeof_object a \<and> \<not> isArray a \<and> a \<noteq> Null then Arr (entries a)
               else a)
       \<and> console st' = console st
       \<and> length (nodes st') = length (nodes st)
       \<and> (\<forall>m. m \<noteq> n \<longrightarrow> nodes st' ! m = nodes st ! m)
       \<and> localName (nodes st' ! n) = localName (nodes st ! n)
       \<and> childNodes (nodes st' ! n) = childNodes (nodes st ! n)"
proof -
  from assms have i: "item' = normalize_attrs (class_alias item)"
    and s: "st' = write_attrs n (setup_writes E item') st"
    by (simp_all add: domBuilderBasicSetup_Inr)
  have same: "localName (nodes st' ! n) = localName (nodes st ! n)
              \<and> childNodes (nodes st' ! n) = childNodes (nodes st ! n)"
    by (cases "n < length (nodes st)")
       (simp_all add: s write_attrs_def list_update_beyond)
  have attrs: "get_prop item' ''attrs'' =
           (let a = get_prop item ''attrs''
            in if truthy a \<and> isArray a \<and> \<not> isArray (index a 0) then Arr [a]
               else if typeof_object a \<and> \<not> isArray a \<and> a \<noteq> Null then Arr (entries a)
               else a)"
    by (simp add: i attrs_normalize_attrs [of "class_alias item"] get_prop_class_alias_other)
  have others: "\<forall>k. k \<noteq> ''className'' \<and> k \<noteq> ''attrs'' \<longrightarrow> get_prop item' k = get_prop item k"
    by (simp add: i get_prop_normalize_attrs_other get_prop_class_alias_other)
  have doc: "console st' = console st" "length (nodes st') = length (nodes st)"
    "\<forall>m. m \<noteq> n \<longrightarrow> nodes st' ! m = nodes st ! m"
    by (simp_all add: s nth_write_attrs_other)
  show ?thesis
    using others fields_after_setup(2) [OF assms] attrs doc same by blast
qed

theorem setup_frame_witness:
  "domBuilderBasicSetup sample_env 0
       (Obj [(''class'', Str ''c''), (''attrs'', Obj [(''title'', Str ''t'')])])
       body_document =
     Inr (Obj [(''class'', Str ''c''),
               (''attrs'', Arr [Arr [Str ''title'', Str ''t'']]),
               (''className'', Str ''c'')],
          \<lparr>nodes = [\<lparr>localName = ''body'',
                      attributes = [(''title'', ''t''), (''class'', ''c'')],
                      childNodes = []\<rparr>],
           console = []\<rparr>)
   \<and> console \<lparr>nodes = [\<lparr>localName = ''body'',
                          attributes = [(''title'', ''t''), (''class'', ''c'')],
                          childNodes = []\<rparr>],
               console = []\<rparr> = console body_document
   \<and> get_prop (Obj [(''class'', Str ''c''),
                    (''attrs'', Arr [Arr [Str ''title'', Str ''t'']]),
                    (''className'', Str ''c'')]) ''class'' = Str ''c''"
  using setup_frame [OF setup_rewrites_record_run] setup_rewrites_record_run
  by simp

section \<open>Precedence of the object-level id and className (C8)\<close>

lemma precedence_run:
  "domBuilder sample_env [Obj [(''id'', Str ''x''), (''attrs'', Obj [(''id'', Str ''y'')])]]
       Undefined Undefined empty_document =
     Inr (Elem 0,
          \<lparr>nodes = [\<lparr>localName = ''div'', attributes = [(''id'', ''x'')], childNodes = []\<rparr>],
           console = []\<rparr>)"
  by code_simp

lemma precedence_general:
  assumes "domBuilderBasicSetup E n item st = Inr (item', st')"
  shows "truthy (get_prop item ''id'')
           \<Longrightarrow> getAttribute st' n ''id'' = Some (ToString E (get_prop item ''id''))"
    and "truthy (get_prop item ''className'')
           \<Longrightarrow> getAttribute st' n ''class'' = Some (class_string E (get_prop item ''className''))"
    and "\<not> truthy (get_prop item ''className'') \<Longrightarrow> truthy (get_prop item ''class'')
           \<Longrightarrow> getAttribute st' n ''class'' = Some (class_string E (get_prop item ''class''))"
  using fields_after_setup [OF assms]
  by (simp_all add: getAttribute_setup [OF assms] setup_writes_def)

text \<open>
  C8. An \<open>id\<close> or a \<open>className\<close> given on the record (that is, truthy there; \<open>class\<close>
  stands in for a \<open>className\<close> that is not) is the value of the node's \<open>id\<close> or \<open>class\<close>
  attribute after the call, whatever \<open>attrs\<close> holds, because lines 30 to 37 run after
  the loop over the attributes. And the build of \<open>{ id:"x", attrs:{ id:"y" } }\<close> yields
  a node whose id is \<open>x\<close>.
\<close>
theorem object_level_id_and_class_win:
  "(domBuilderBasicSetup E n item st = Inr (item', st') \<longrightarrow>
      (truthy (get_prop item ''id'')
         \<longrightarrow> getAttribute st' n ''id'' = Some (ToString E (get_prop item ''id'')))
    \<and> (truthy (get_prop item ''className'')
         \<longrightarrow> getAttribute st' n ''class'' = Some (class_string E (get_prop item ''className'')))
    \<and> (\<not> truthy (get_prop item ''className'') \<and> truthy (get_prop item ''class'')
         \<longrightarrow> getAttribute st' n ''class'' = Some (class_string E (get_prop item ''class''))))
   \<and> (\<exists>st. domBuilder sample_env
               [Obj [(''id'', Str ''x''), (''attrs'', Obj [(''id'', Str ''y'')])]]
               Undefined Undefined empty_document = Inr (Elem 0, st)
           \<and> getAttribute st 0 ''id'' = Some ''x'')"
proof (intro conjI impI)
  show "\<exists>st. domBuilder sample_env
               [Obj [(''id'', Str ''x''), (''attrs'', Obj [(''id'', Str ''y'')])]]
               Undefined Undefined empty_document = Inr (Elem 0, st)
           \<and> getAttribute st 0 ''id'' = Some ''x''"
    by (simp add: precedence_run getAttribute_def)
qed (auto dest: precedence_general)

lemma precedence_setup_run:
  "domBuilderBasicSetup sample_env 0
       (Obj [(''id'', Str ''x''), (''class'', Arr [Str ''a'', Null, Str ''b'']),
             (''attrs'', Obj [(''id'', Str ''y''), (''class'', Str ''z'')])])
       body_document =
     Inr (Obj [(''id'', Str ''x''), (''class'', Arr [Str ''a'', Null, Str ''b'']),
               (''attrs'', Arr [Arr [Str ''id'', Str ''y''], Arr [Str ''class'', Str ''z'']]),
               (''className'', Arr [Str ''a'', Null, Str ''b''])],
          \<lparr>nodes = [\<lparr>localName = ''body'',
                      attributes = [(''id'', ''x''), (''class'', ''a b'')],
                      childNodes = []\<rparr>],
           console = []\<rparr>)"
  by code_simp

theorem object_level_id_and_class_win_witness:
  "getAttribute \<lparr>nodes = [\<lparr>localName = ''body'',
                            attributes = [(''id'', ''x''), (''class'', ''a b'')],
                            childNodes = []\<rparr>],
                 console = []\<rparr> 0 ''id'' = Some ''x''
   \<and> getAttribute \<lparr>nodes = [\<lparr>localName = ''body'',
                              attributes = [(''id'', ''x''), (''class'', ''a b'')],
                              childNodes = []\<rparr>],
                   console = []\<rparr> 0 ''class'' =
       Some (class_string sample_env (Arr [Str ''a'', Null, Str ''b'']))"
  using object_level_id_and_class_win
          [where E = sample_env and n = 0 and st = body_document and item =
              "Obj [(''id'', Str ''x''), (''class'', Arr [Str ''a'', Null, Str ''b'']),
                    (''attrs'', Obj [(''id'', Str ''y''), (''class'', Str ''z'')])]"]
        precedence_setup_run
  by simp

section \<open>Idempotence (C9)\<close>

text \<open>
  C9. When a call of \<open>domBuilderBasicSetup\<close> returns, a second call with the same record
  (as the first call left it, or as it was before) returns too, and leaves the document
  exactly as the first call left it.
\<close>
theorem setup_idempotent:
  assumes "domBuilderBasicSetup E n item st = Inr (item', st')"
  shows "(\<exists>item''. domBuilderBasicSetup E n item' st' = Inr (item'', st'))
       \<and> domBuilderBasicSetup E n item st' = Inr (item', st')"
proof -
  let ?W = "setup_writes E item'"
  from assms have nn: "\<not> nullish item" "\<not> nullish item'"
    by (auto simp: domBuilderBasicSetup_Inr nullish_normalized)
  from assms have i: "item' = normalize_attrs (class_alias item)"
    and ok: "nullish (get_prop item' ''attrs'') \<or> isArray (get_prop item' ''attrs'')"
    and aok: "attrs_ok E (elems (get_prop item' ''attrs''))"
    and len: "?W = [] \<or> n < length (nodes st)"
    and s: "st' = write_attrs n ?W st"
    by (auto simp: domBuilderBasicSetup_Inr)
  have again: "write_attrs n ?W st' = st'"
    by (simp add: s write_attrs_same_twice)
  have len': "?W = [] \<or> n < length (nodes st')"
    using len by (simp add: s)
  let ?item3 = "normalize_attrs (class_alias item')"
  have "domBuilderBasicSetup E n item' st' = Inr (?item3, st')"
    unfolding domBuilderBasicSetup_Inr
    using second_call_record [where item = item] ok aok len' again nn
    by (simp add: i)
  moreover have "domBuilderBasicSetup E n item st' = Inr (item', st')"
    unfolding domBuilderBasicSetup_Inr
    using ok aok len' again i nn
    by simp
  ultimately show ?thesis by blast
qed

theorem setup_idempotent_witness:
  "(\<exists>item''. domBuilderBasicSetup sample_env 0
       (Obj [(''id'', Str ''x''), (''class'', Arr [Str ''a'', Null, Str ''b'']),
             (''attrs'', Arr [Arr [Str ''id'', Str ''y''], Arr [Str ''class'', Str ''z'']]),
             (''className'', Arr [Str ''a'', Null, Str ''b''])])
       \<lparr>nodes = [\<lparr>localName = ''body'',
                   attributes = [(''id'', ''x''), (''class'', ''a b'')],
                   childNodes = []\<rparr>],
        console = []\<rparr> =
     Inr (item'',
          \<lparr>nodes = [\<lparr>localName = ''body'',
                      attributes = [(''id'', ''x''), (''class'', ''a b'')],
                      childNodes = []\<rparr>],
           console = []\<rparr>))"
  using setup_idempotent [OF precedence_setup_run]
  by simp

section \<open>The class list without className (C10)\<close>

lemma write_attrs_beyond: "\<not> n < length (nodes st) \<Longrightarrow> write_attrs n ws st = st"
  by (simp add: write_attrs_def list_update_beyond)

lemma id_writes_keep_class:
  "getAttribute (write_attrs n (id_writes E item) st) n ''class'' = getAttribute st n ''class''"
proof (cases "n < length (nodes st)")
  case True
  then show ?thesis
    by (simp add: getAttribute_write_attrs id_writes_def)
next
  case False
  then show ?thesis
    by (simp add: write_attrs_beyond)
qed

text \<open>
  C10. When neither \<open>className\<close> nor \<open>class\<close> of the record is truthy, lines 30 to 34 do
  not run: after the call the \<open>class\<close> attribute of the node is what the loop over the
  attributes left. It is the value of the last pair of \<open>attrs\<close> that names \<open>class\<close> with
  a value that is not \<open>null\<close> or \<open>undefined\<close>, and the attribute is as before the call
  when there is no such pair.
\<close>
theorem class_survives_without_className:
  assumes "domBuilderBasicSetup E n item st = Inr (item', st')"
    and "\<not> truthy (get_prop item ''className'')"
    and "\<not> truthy (get_prop item ''class'')"
  shows "(\<exists>st1. apply_attrs E n (elems (get_prop item' ''attrs'')) st = Inr st1
            \<and> getAttribute st' n ''class'' = getAttribute st1 n ''class'')
       \<and> getAttribute st' n ''class'' =
           (case map_of (rev (attr_writes E (elems (get_prop item' ''attrs'')))) ''class'' of
              None \<Rightarrow> getAttribute st n ''class''
            | Some v \<Rightarrow> Some v)"
proof
  let ?aw = "attr_writes E (elems (get_prop item' ''attrs''))"
  have cn: "\<not> truthy (get_prop item' ''className'')"
    using fields_after_setup(2) [OF assms(1)] assms(2,3) by simp
  then have W: "setup_writes E item' = ?aw @ id_writes E item'"
    by (simp add: setup_writes_parts class_writes_def)
  from assms(1) have aok: "attrs_ok E (elems (get_prop item' ''attrs''))"
    and len: "setup_writes E item' = [] \<or> n < length (nodes st)"
    and s: "st' = write_attrs n (setup_writes E item') st"
    by (auto simp: domBuilderBasicSetup_Inr)
  from len W have "?aw = [] \<or> n < length (nodes st)"
    by auto
  with aok have run: "apply_attrs E n (elems (get_prop item' ''attrs'')) st
                       = Inr (write_attrs n ?aw st)"
    by (simp add: apply_attrs_Inr)
  have "st' = write_attrs n (id_writes E item') (write_attrs n ?aw st)"
    by (simp add: s W write_attrs_twice)
  then have "getAttribute st' n ''class'' = getAttribute (write_attrs n ?aw st) n ''class''"
    by (simp add: id_writes_keep_class)
  with run show "\<exists>st1. apply_attrs E n (elems (get_prop item' ''attrs'')) st = Inr st1
            \<and> getAttribute st' n ''class'' = getAttribute st1 n ''class''"
    by blast
  show "getAttribute st' n ''class'' =
           (case map_of (rev ?aw) ''class'' of
              None \<Rightarrow> getAttribute st n ''class''
            | Some v \<Rightarrow> Some v)"
    using cn
    by (simp add: getAttribute_setup [OF assms(1)] setup_writes_def map_add_def
             split: option.splits)
qed

lemma class_through_attrs_run:
  "domBuilderBasicSetup sample_env 0
       (Obj [(''className'', Str []), (''attrs'', Obj [(''class'', Str ''k''), (''title'', Null)])])
       body_document =
     Inr (Obj [(''className'', Str []),
               (''attrs'', Arr [Arr [Str ''class'', Str ''k''], Arr [Str ''title'', Null]])],
          \<lparr>nodes = [\<lparr>localName = ''body'', attributes = [(''class'', ''k'')], childNodes = []\<rparr>],
           console = []\<rparr>)"
  by code_simp

theorem class_survives_without_className_witness:
  "getAttribute \<lparr>nodes = [\<lparr>localName = ''body'', attributes = [(''class'', ''k'')],
                            childNodes = []\<rparr>],
                 console = []\<rparr> 0 ''class'' = Some ''k''"
proof -
  have "\<not> truthy (get_prop (Obj [(''className'', Str []),
            (''attrs'', Obj [(''class'', Str ''k''), (''title'', Null)])]) ''className'')"
    by simp
  moreover have "\<not> truthy (get_prop (Obj [(''className'', Str []),
            (''attrs'', Obj [(''class'', Str ''k''), (''title'', Null)])]) ''class'')"
    by simp
  ultimately show ?thesis
    using conjunct2 [OF class_survives_without_className [OF class_through_attrs_run]]
    by (simp add: toLowerCase_def toLowerChar_def is_upper_def nullish_def)
qed

section \<open>Content resolution (C1)\<close>

lemma childNodes_set_innerHTML:
  "set_innerHTML n s st = Inr st' \<Longrightarrow>
   childNodes (nodes st' ! n) = (if s = [] then [] else [Raw s])"
  by (auto simp: set_innerHTML_def update_node_def split: if_splits)

lemma childNodes_appendChild:
  "appendChild p c st = Inr st' \<Longrightarrow>
   childNodes (nodes st' ! p) = removeAll (Ref c) (childNodes (nodes st ! p)) @ [Ref c]"
  by (auto simp: appendChild_def Let_def split: if_splits)

text \<open>The three ways through lines 135 to 151.\<close>
lemma resolve_content_falsy:
  "\<not> truthy (get_prop item ''content'') \<Longrightarrow> resolve_content E item e st = Inr st"
  by (simp add: resolve_content_def)

lemma resolve_content_producer:
  "get_prop item ''content'' = Fun f \<Longrightarrow> call E f [] st = Inr (v, st1) \<Longrightarrow>
   resolve_content E item e st =
     (case v of Elem k \<Rightarrow> appendChild_val e v st1 | _ \<Rightarrow> set_innerHTML_val E e v st1)"
  by (simp add: resolve_content_def)

lemma resolve_content_direct:
  "truthy (get_prop item ''content'') \<Longrightarrow> \<not> typeof_function (get_prop item ''content'') \<Longrightarrow>
   resolve_content E item e st =
     set_innerHTML_val E e (Str (ToString E (get_prop item ''content''))) st"
  by (cases "get_prop item ''content''") (simp_all add: resolve_content_def nullish_def)

text \<open>
  In a build that returns, every item that passes line 94 goes through the content step,
  on the element made for it.
\<close>
lemma loop_runs_content_step:
  assumes "forEach_item E (item0 # rest) L st = Inr r" and "enabled (lower_item item0)"
  shows "\<exists>item L1 st1 st2.
           make_element E (lower_item item0) L st = Inr (item, L1, st1)
         \<and> resolve_content E item (el L1) st1 = Inr st2"
  using assms by (auto simp: sum_bind_Inr)

lemma content_zero_run:
  "domBuilder sample_env [Obj [(''content'', Num 0)]] Undefined Undefined empty_document =
     Inr (Elem 0,
          \<lparr>nodes = [\<lparr>localName = ''div'', attributes = [], childNodes = []\<rparr>], console = []\<rparr>)"
  by code_simp

lemma content_zero_string: "ToString sample_env (Num 0) = ''0''"
  by code_simp

text \<open>
  C1, as stated: content that is not \<open>null\<close>, the number 0 included, is converted to its
  string form and assigned as the raw content of the element. Line 135 lets only truthy
  content through: for the content 0 the element stays empty.
\<close>
theorem content_resolution_counterexample:
  "domBuilder sample_env [Obj [(''content'', Num 0)]] Undefined Undefined empty_document =
     Inr (Elem 0,
          \<lparr>nodes = [\<lparr>localName = ''div'', attributes = [], childNodes = []\<rparr>], console = []\<rparr>)
   \<and> ToString sample_env (Num 0) = ''0''
   \<and> childNodes (nodes \<lparr>nodes = [\<lparr>localName = ''div'', attributes = [], childNodes = []\<rparr>],
                       console = []\<rparr> ! 0) \<noteq> [Raw ''0'']"
proof (intro conjI)
  show "ToString sample_env (Num 0) = ''0''"
    by (rule content_zero_string)
qed (simp_all add: content_zero_run)

text \<open>
  The other departure from the claim: an element given directly as \<open>content\<close> is not a
  function, so line 142 turns it into a string, which line 149 assigns as markup. The
  element (number 1 below) is not appended to the new \<open>div\<close> (number 2).
\<close>
lemma direct_element_content_is_stringified:
  "domBuilder sample_env [Obj [(''content'', Elem 1)]] (Elem 0) Undefined
       \<lparr>nodes = [\<lparr>localName = ''body'', attributes = [], childNodes = []\<rparr>,
                 \<lparr>localName = ''em'', attributes = [], childNodes = []\<rparr>],
        console = []\<rparr> =
     Inr (Elem 2,
          \<lparr>nodes = [\<lparr>localName = ''body'', attributes = [], childNodes = [Ref 2]\<rparr>,
                    \<lparr>localName = ''em'', attributes = [], childNodes = []\<rparr>,
                    \<lparr>localName = ''div'', attributes = [],
                       childNodes = [Raw ''[object HTMLElement]'']\<rparr>],
           console = []\<rparr>)"
  by code_simp

text \<open>
  C1, amended. When the content step of an item returns, for the element \<open>n\<close> of the item:
  \<^item> content that is falsy (absent, \<open>null\<close>, 0, the empty string) changes nothing;
  \<^item> content that is a function is called with no argument; an element it returns becomes
    the last child of \<open>n\<close>; any other value it returns replaces the children of \<open>n\<close> by
    its string form as markup (nothing for \<open>null\<close> and for the empty string);
  \<^item> truthy content that is neither a function nor an element replaces the children of
    \<open>n\<close> by its string form as markup.
  What the step does with an element given directly is not part of the statement.
\<close>
theorem content_resolution:
  assumes "resolve_content E item (Elem n) st = Inr st'"
  shows "(\<not> truthy (get_prop item ''content'') \<longrightarrow> st' = st)
       \<and> (\<forall>f v st1. get_prop item ''content'' = Fun f \<and> call E f [] st = Inr (v, st1) \<longrightarrow>
            (case v of
               Elem k \<Rightarrow> childNodes (nodes st' ! n) =
                           removeAll (Ref k) (childNodes (nodes st1 ! n)) @ [Ref k]
             | _ \<Rightarrow> childNodes (nodes st' ! n) =
                      (if markup_of E v = [] then [] else [Raw (markup_of E v)])))
       \<and> (truthy (get_prop item ''content'') \<and> \<not> typeof_function (get_prop item ''content'')
            \<and> (\<forall>k. get_prop item ''content'' \<noteq> Elem k) \<longrightarrow>
            childNodes (nodes st' ! n) =
              (if ToString E (get_prop item ''content'') = [] then []
               else [Raw (ToString E (get_prop item ''content''))]))"
proof (intro conjI allI impI)
  assume "\<not> truthy (get_prop item ''content'')"
  then show "st' = st"
    using assms by (simp add: resolve_content_falsy)
next
  fix f v st1
  assume "get_prop item ''content'' = Fun f \<and> call E f [] st = Inr (v, st1)"
  then have r: "(case v of Elem k \<Rightarrow> appendChild_val (Elem n) v st1
                 | _ \<Rightarrow> set_innerHTML_val E (Elem n) v st1) = Inr st'"
    using assms by (simp add: resolve_content_producer)
  show "case v of
          Elem k \<Rightarrow> childNodes (nodes st' ! n) =
                      removeAll (Ref k) (childNodes (nodes st1 ! n)) @ [Ref k]
        | _ \<Rightarrow> childNodes (nodes st' ! n) =
                 (if markup_of E v = [] then [] else [Raw (markup_of E v)])"
    using r
    by (cases v)
       (simp_all add: appendChild_val_def set_innerHTML_val_def childNodes_appendChild
                      childNodes_set_innerHTML)
next
  assume h: "truthy (get_prop item ''content'') \<and> \<not> typeof_function (get_prop item ''content'')
             \<and> (\<forall>k. get_prop item ''content'' \<noteq> Elem k)"
  then have "set_innerHTML n (ToString E (get_prop item ''content'')) st = Inr st'"
    using assms
    by (simp add: resolve_content_direct set_innerHTML_val_def markup_of_def)
  then show "childNodes (nodes st' ! n) =
               (if ToString E (get_prop item ''content'') = [] then []
                else [Raw (ToString E (get_prop item ''content''))])"
    by (rule childNodes_set_innerHTML)
qed

text \<open>
  A whole build with a producer: the function 1 of the sample environment returns the
  element 0, which becomes the child of the new \<open>div\<close> (number 2).
\<close>
lemma producer_element_is_appended:
  "domBuilder sample_env [Obj [(''content'', Fun 1)]] (Elem 1) Undefined
       \<lparr>nodes = [\<lparr>localName = ''em'', attributes = [], childNodes = []\<rparr>,
                 \<lparr>localName = ''body'', attributes = [], childNodes = []\<rparr>],
        console = []\<rparr> =
     Inr (Elem 2,
          \<lparr>nodes = [\<lparr>localName = ''em'', attributes = [], childNodes = []\<rparr>,
                    \<lparr>localName = ''body'', attributes = [], childNodes = [Ref 2]\<rparr>,
                    \<lparr>localName = ''div'', attributes = [], childNodes = [Ref 0]\<rparr>],
           console = []\<rparr>)"
  by code_simp

lemma producer_content_run:
  "resolve_content sample_env (Obj [(''content'', Fun 1)]) (Elem 1)
       \<lparr>nodes = [\<lparr>localName = ''em'', attributes = [], childNodes = []\<rparr>,
                 \<lparr>localName = ''div'', attributes = [], childNodes = []\<rparr>],
        console = []\<rparr> =
     Inr \<lparr>nodes = [\<lparr>localName = ''em'', attributes = [], childNodes = []\<rparr>,
                   \<lparr>localName = ''div'', attributes = [], childNodes = [Ref 0]\<rparr>],
          console = []\<rparr>"
  by code_simp

theorem content_resolution_witness:
  "resolve_content sample_env (Obj [(''content'', Fun 1)]) (Elem 1)
       \<lparr>nodes = [\<lparr>localName = ''em'', attributes = [], childNodes = []\<rparr>,
                 \<lparr>localName = ''div'', attributes = [], childNodes = []\<rparr>],
        console = []\<rparr> =
     Inr \<lparr>nodes = [\<lparr>localName = ''em'', attributes = [], childNodes = []\<rparr>,
                   \<lparr>localName = ''div'', attributes = [], childNodes = [Ref 0]\<rparr>],
          console = []\<rparr>
   \<and> call sample_env 1 []
       \<lparr>nodes = [\<lparr>localName = ''em'', attributes = [], childNodes = []\<rparr>,
                 \<lparr>localName = ''div'', attributes = [], childNodes = []\<rparr>],
        console = []\<rparr> =
     Inr (Elem 0,
          \<lparr>nodes = [\<lparr>localName = ''em'', attributes = [], childNodes = []\<rparr>,
                    \<lparr>localName = ''div'', attributes = [], childNodes = []\<rparr>],
           console = []\<rparr>)
   \<and> childNodes (nodes \<lparr>nodes = [\<lparr>localName = ''em'', attributes = [], childNodes = []\<rparr>,
                                \<lparr>localName = ''div'', attributes = [], childNodes = [Ref 0]\<rparr>],
                       console = []\<rparr> ! 1) =
       removeAll (Ref 0)
         (childNodes (nodes \<lparr>nodes = [\<lparr>localName = ''em'', attributes = [], childNodes = []\<rparr>,
                                      \<lparr>localName = ''div'', attributes = [], childNodes = []\<rparr>],
                             console = []\<rparr> ! 1)) @ [Ref 0]"
proof -
  let ?st = "\<lparr>nodes = [\<lparr>localName = ''em'', attributes = [], childNodes = []\<rparr>,
                        \<lparr>localName = ''div'', attributes = [], childNodes = []\<rparr>],
               console = []\<rparr>"
  have c: "get_prop (Obj [(''content'', Fun 1)]) ''content'' = Fun 1
           \<and> call sample_env 1 [] ?st = Inr (Elem 0, ?st)"
    by (simp add: sample_env_def sample_result_def)
  note all = conjunct1 [OF conjunct2 [OF content_resolution [OF producer_content_run]]]
  from all [rule_format, OF c] c producer_content_run
  show ?thesis by simp
qed

section \<open>Skipped items (C2)\<close>

lemma skip_null_item:
  "forEach_item E (Null # rest) L st = forEach_item E rest L st"
  by (simp add: lower_item_def enabled_def nullish_def)

lemma skip_undefined_item:
  "forEach_item E (Undefined # rest) L st = forEach_item E rest L st"
  by (simp add: lower_item_def enabled_def nullish_def)

text \<open>
  C2. The claim: an item that is \<open>null\<close>, \<open>undefined\<close> or the empty string creates no
  node, appends nothing and is not returned. The two lemmas above show it for \<open>null\<close>
  and \<open>undefined\<close>. The empty string is kept away from the parser by line 88, but
  line 94 only tests \<open>item != null\<close>, which the empty string passes: the run below
  creates a \<open>div\<close>, appends it to the parent and returns it.
\<close>
theorem empty_string_item_creates_div:
  "domBuilder sample_env [Str []] (Elem 0) Undefined body_document =
     Inr (Elem 1,
          \<lparr>nodes = [\<lparr>localName = ''body'', attributes = [], childNodes = [Ref 1]\<rparr>,
                    \<lparr>localName = ''div'', attributes = [], childNodes = []\<rparr>],
           console = []\<rparr>)"
  by code_simp

section \<open>The restore point of a tag chain (C3)\<close>

lemma make_element_locals:
  "make_element E item L st = Inr (item', L1, st1) \<Longrightarrow>
   (if isArray (get_prop item ''tag'') then grand_parent L1 = parent L
    else grand_parent L1 = grand_parent L \<and> parent L1 = parent L)"
  by (auto simp: make_element_def Let_def split: if_splits sum.splits prod.splits)

lemma finish_item_locals:
  "finish_item E item L1 st = Inr (L2, st2) \<Longrightarrow>
   grand_parent L2 = grand_parent L1
   \<and> parent L2 = (if truthy (grand_parent L1) then grand_parent L1 else parent L1)"
  by (auto simp: finish_item_def Let_def split: if_splits sum.splits jsval.splits prod.splits)

text \<open>
  One item, with a tag chain or without: when the call has a parent, the parent is the
  same after the item as before it.
\<close>
lemma item_restores_parent:
  assumes me: "make_element E item0 L st = Inr (item, L1, st1)"
    and fi: "finish_item E item L1 st4 = Inr (L2, st5)"
    and par: "truthy (parent L)"
    and inv: "\<not> truthy (grand_parent L) \<or> grand_parent L = parent L"
  shows "parent L2 = parent L \<and> (\<not> truthy (grand_parent L2) \<or> grand_parent L2 = parent L2)"
proof (cases "isArray (get_prop item0 ''tag'')")
  case True
  with make_element_locals [OF me] have "grand_parent L1 = parent L" by simp
  with finish_item_locals [OF fi] par show ?thesis by simp
next
  case False
  with make_element_locals [OF me]
  have "grand_parent L1 = grand_parent L" "parent L1 = parent L" by simp_all
  with finish_item_locals [OF fi] inv show ?thesis by auto
qed

text \<open>
  The loop, for a call that has a parent: every item finds the parent of the call, and
  the loop ends with it.
\<close>
lemma loop_keeps_parent:
  "forEach_item E items L st = Inr (L', st') \<Longrightarrow> truthy (parent L) \<Longrightarrow>
   \<not> truthy (grand_parent L) \<or> grand_parent L = parent L \<Longrightarrow>
   parent L' = parent L"
proof (induction E items L st rule: forEach_item.induct)
  case (1 E L st)
  then show ?case by simp
next
  case (2 E item0 rest L st)
  show ?case
  proof (cases "enabled (lower_item item0)")
    case False
    with "2.prems" "2.IH"(3) show ?thesis by simp
  next
    case True
    from "2.prems"(1) True obtain item L1 st1 st2 st4 L2 st5 where
      me: "make_element E (lower_item item0) L st = Inr (item, L1, st1)"
      and rc: "resolve_content E item (el L1) st1 = Inr st2"
      and ch: "(if truthy (get_prop item ''children'') \<and> isArray (get_prop item ''children'')
                then (case forEach_item E (elems (get_prop item ''children''))
                             (init_locals (el L1)) (check_children E item st2) of
                        Inl err \<Rightarrow> Inl err
                      | Inr (Lc, st3) \<Rightarrow> Inr st3)
                else Inr (check_children E item st2)) = Inr st4"
      and fi: "finish_item E item L1 st4 = Inr (L2, st5)"
      and re: "forEach_item E rest L2 st5 = Inr (L', st')"
      by (auto simp: sum_bind_Inr)
    from item_restores_parent [OF me fi "2.prems"(2,3)]
    have keep: "parent L2 = parent L"
      and inv: "\<not> truthy (grand_parent L2) \<or> grand_parent L2 = parent L2"
      by blast+
    have "parent L' = parent L2"
      using "2.IH"(2) [OF True me refl refl rc ch fi refl re] "2.prems"(2) keep inv
      by simp
    with keep show ?thesis by simp
  qed
qed

text \<open>
  With a parent, then, the sibling after a tag chain is appended to the parent of the
  call: the same two items as in the run without a parent.
\<close>
lemma chain_with_parent_run:
  "domBuilder sample_env
       [Obj [(''tag'', Arr [Str ''div.a'', Str ''span.b''])], Str ''p'']
       (Elem 0) Undefined body_document =
     Inr (Elem 2,
          \<lparr>nodes = [\<lparr>localName = ''body'', attributes = [], childNodes = [Ref 1, Ref 3]\<rparr>,
                    \<lparr>localName = ''div'', attributes = [(''class'', ''a'')], childNodes = [Ref 2]\<rparr>,
                    \<lparr>localName = ''span'', attributes = [(''class'', ''b'')], childNodes = []\<rparr>,
                    \<lparr>localName = ''p'', attributes = [], childNodes = []\<rparr>],
           console = []\<rparr>)"
  by code_simp

text \<open>
  C3. The claim: after an item with a tag chain, the parent is again the parent of the
  call, with a parent argument present or absent, so the next sibling is never appended
  to a node of the chain. With a parent this holds (\<open>loop_keeps_parent\<close> above). But
  line 175 restores only when \<open>grand_parent\<close> is truthy. In a call without a parent
  \<open>grand_parent\<close> is \<open>undefined\<close>, the parent stays the chain's \<open>div.a\<close>, and the sibling
  \<open>p\<close> of the run below becomes its second child.
\<close>
theorem chain_without_parent_adopts_sibling:
  "domBuilder sample_env
       [Obj [(''tag'', Arr [Str ''div.a'', Str ''span.b''])], Str ''p'']
       Undefined Undefined empty_document =
     Inr (Elem 1,
          \<lparr>nodes = [\<lparr>localName = ''div'', attributes = [(''class'', ''a'')],
                      childNodes = [Ref 1, Ref 2]\<rparr>,
                    \<lparr>localName = ''span'', attributes = [(''class'', ''b'')], childNodes = []\<rparr>,
                    \<lparr>localName = ''p'', attributes = [], childNodes = []\<rparr>],
           console = []\<rparr>)"
  by code_simp

section \<open>Chain isolation (C4)\<close>

lemma chain_isolation_run:
  "domBuilder sample_env
       [Obj [(''tag'', Arr [Str ''div.a'', Str ''span.b'']), (''className'', Str ''extra'')]]
       Undefined Undefined empty_document =
     Inr (Elem 1,
          \<lparr>nodes = [\<lparr>localName = ''div'', attributes = [(''class'', ''a'')],
                      childNodes = [Ref 1]\<rparr>,
                    \<lparr>localName = ''span'', attributes = [(''class'', ''extra'')],
                      childNodes = []\<rparr>],
           console = []\<rparr>)"
  by code_simp

lemma chain_isolation_classes:
  "classList \<lparr>nodes = [\<lparr>localName = ''div'', attributes = [(''class'', ''a'')],
                          childNodes = [Ref 1]\<rparr>,
                        \<lparr>localName = ''span'', attributes = [(''class'', ''extra'')],
                          childNodes = []\<rparr>],
               console = []\<rparr> 0 = [''a'']"
  "classList \<lparr>nodes = [\<lparr>localName = ''div'', attributes = [(''class'', ''a'')],
                          childNodes = [Ref 1]\<rparr>,
                        \<lparr>localName = ''span'', attributes = [(''class'', ''extra'')],
                          childNodes = []\<rparr>],
               console = []\<rparr> 1 = [''extra'']"
  by code_simp+

text \<open>
  C4, as stated: the \<open>span\<close> of the chain carries both \<open>extra\<close> and its parsed class \<open>b\<close>.
  It does not: the record's \<open>className\<close> replaces the \<open>className\<close> of the parsed
  segment in the spread of line 115.
\<close>
theorem chain_isolation_counterexample:
  "domBuilder sample_env
       [Obj [(''tag'', Arr [Str ''div.a'', Str ''span.b'']), (''className'', Str ''extra'')]]
       Undefined Undefined empty_document =
     Inr (Elem 1,
          \<lparr>nodes = [\<lparr>localName = ''div'', attributes = [(''class'', ''a'')],
                      childNodes = [Ref 1]\<rparr>,
                    \<lparr>localName = ''span'', attributes = [(''class'', ''extra'')],
                      childNodes = []\<rparr>],
           console = []\<rparr>)
   \<and> ''b'' \<notin> set (classList
                     \<lparr>nodes = [\<lparr>localName = ''div'', attributes = [(''class'', ''a'')],
                                 childNodes = [Ref 1]\<rparr>,
                               \<lparr>localName = ''span'', attributes = [(''class'', ''extra'')],
                                 childNodes = []\<rparr>],
                      console = []\<rparr> 1)"
  by (simp add: chain_isolation_run chain_isolation_classes del: One_nat_def)

text \<open>
  C4, amended: the build produces a \<open>div\<close> whose class list is exactly \<open>a\<close>, with exactly
  one child, a \<open>span\<close> whose class list is exactly \<open>extra\<close>; the \<open>span\<close> is the element
  returned.
\<close>
theorem chain_isolation_outer_class_replaces:
  "\<exists>st. domBuilder sample_env
            [Obj [(''tag'', Arr [Str ''div.a'', Str ''span.b'']),
                  (''className'', Str ''extra'')]]
            Undefined Undefined empty_document = Inr (Elem 1, st)
       \<and> length (nodes st) = 2
       \<and> localName (nodes st ! 0) = ''div'' \<and> classList st 0 = [''a'']
       \<and> childNodes (nodes st ! 0) = [Ref 1]
       \<and> localName (nodes st ! 1) = ''span'' \<and> classList st 1 = [''extra'']
       \<and> childNodes (nodes st ! 1) = []"
  by (simp add: chain_isolation_run chain_isolation_classes del: One_nat_def)

end
